theory Spec2Isabelle
  imports Complex_Main "HOL-Library.AList" "HOL-Library.Log_Nat"
begin

section \<open>Python strings: \<open>str\<close> of a non-negative integer and \<open>str.zfill\<close>\<close>

text \<open>
  The identifiers of the three tables are built with f-strings of the shape
  \<^verbatim>\<open>f"CUST{str(i+1).zfill(5)}"\<close>.  \<open>str\<close> of a non-negative Python integer is its
  decimal numeral without leading zeros; \<open>zfill\<close> pads on the left with the character
  \<open>0\<close> up to the given width, never truncates, and keeps a leading sign in front of the
  padding.
\<close>

definition digit_char :: "nat \<Rightarrow> char" where
  "digit_char d = char_of (of_char (CHR ''0'') + d)"

fun str_nat :: "nat \<Rightarrow> string" where
  "str_nat n = (if n < 10 then [digit_char n] else str_nat (n div 10) @ [digit_char (n mod 10)])"

declare str_nat.simps [simp del]

definition zfill :: "nat \<Rightarrow> string \<Rightarrow> string" where
  "zfill width s =
     (if width \<le> length s then s
      else (case s of
              [] \<Rightarrow> replicate width (CHR ''0'')
            | c # cs \<Rightarrow>
                if c = CHR ''+'' \<or> c = CHR ''-''
                then c # replicate (width - length s) (CHR ''0'') @ cs
                else replicate (width - length s) (CHR ''0'') @ s))"

text \<open>A string between single quotes, as the f-strings of the program print it.\<close>

definition quoted :: "string \<Rightarrow> string" where
  "quoted s = CHR 0x27 # s @ [CHR 0x27]"

text \<open>
  \<open>repr\<close> of a string, which \<open>str\<close> of a \<open>KeyError\<close> or of an \<open>OSError\<close> prints:
  single quotes, or double quotes when the string holds a single quote and no double
  quote; the quote character and the backslash get a backslash in front, tab, line feed
  and carriage return are written as a backslash and the letter \<open>t\<close>, \<open>n\<close> or \<open>r\<close>, and
  the other ASCII control characters as a backslash, \<open>x\<close> and two hexadecimal digits.
  Bytes above 127 (text outside ASCII) are left as they are.
\<close>

definition hex_digit :: "nat \<Rightarrow> char" where
  "hex_digit d = (if d < 10 then char_of (48 + d) else char_of (87 + d))"

definition repr_char :: "char \<Rightarrow> char \<Rightarrow> string" where
  "repr_char q c =
     (if c = q \<or> c = CHR 0x5C then [CHR 0x5C, c]
      else if c = CHR 0x09 then [CHR 0x5C, CHR ''t'']
      else if c = CHR 0x0A then [CHR 0x5C, CHR ''n'']
      else if c = CHR 0x0D then [CHR 0x5C, CHR ''r'']
      else if (of_char c :: nat) < 32 \<or> (of_char c :: nat) = 127
        then [CHR 0x5C, CHR ''x'', hex_digit (of_char c div 16), hex_digit (of_char c mod 16)]
      else [c])"

definition py_repr :: "string \<Rightarrow> string" where
  "py_repr s =
     (let q = (if CHR 0x27 \<in> set s \<and> CHR 0x22 \<notin> set s then CHR 0x22 else CHR 0x27)
      in q # concat (map (repr_char q) s) @ [q])"

text \<open>The value of a string of decimal digits, used only to show that the identifiers are distinct.\<close>

definition digit_val :: "char \<Rightarrow> nat" where
  "digit_val c = of_char c - of_char (CHR ''0'')"

definition decimal_val :: "string \<Rightarrow> nat" where
  "decimal_val s = foldl (\<lambda>a c. 10 * a + digit_val c) 0 s"

text \<open>
  \<open>str.capitalize\<close> on ASCII text: the first character in upper case, the others in lower
  case.  Characters outside \<open>a\<close>..\<open>z\<close> and \<open>A\<close>..\<open>Z\<close> are left as they are.
\<close>

definition to_upper :: "char \<Rightarrow> char" where
  "to_upper c =
     (if (97::nat) \<le> of_char c \<and> of_char c \<le> (122::nat) then char_of (of_char c - (32::nat)) else c)"

definition to_lower :: "char \<Rightarrow> char" where
  "to_lower c =
     (if (65::nat) \<le> of_char c \<and> of_char c \<le> (90::nat) then char_of (of_char c + (32::nat)) else c)"

definition capitalize :: "string \<Rightarrow> string" where
  "capitalize s = (case s of [] \<Rightarrow> [] | c # cs \<Rightarrow> to_upper c # map to_lower cs)"

section \<open>Python floats: IEEE 754 binary64 with round-to-nearest, ties to even\<close>

text \<open>
  A finite float is modelled by its exact value, a rational number.  Every arithmetic
  operation computes the exact result and rounds it to the nearest binary64 number, ties
  to the even significand (\<open>round_binary64\<close>).  The unit in the last place of a number
  with \<open>2 ^ e \<le> |x| < 2 ^ (e + 1)\<close> is \<open>2 ^ (e - 52)\<close>; below \<open>2 ^ -1022\<close> the spacing
  stays \<open>2 ^ -1074\<close> (subnormal numbers).  Overflow to infinity (magnitudes from
  \<open>2 ^ 1024\<close>) is not modelled: no float of this program exceeds \<open>2500\<close>.
\<close>

type_synonym float64 = rat

definition floor_log2 :: "rat \<Rightarrow> int" where
  \<comment> \<open>for \<open>0 < x\<close>: the \<open>e\<close> with \<open>2 ^ e \<le> x < 2 ^ (e + 1)\<close>\<close>
  "floor_log2 x = (if 1 \<le> x then bitlen \<lfloor>x\<rfloor> - 1 else - bitlen (\<lceil>1 / x\<rceil> - 1))"

definition round_half_even :: "rat \<Rightarrow> int" where
  "round_half_even x =
     (let f = \<lfloor>x\<rfloor>; d = x - of_int f
      in if d < 1 / 2 then f else if 1 / 2 < d then f + 1 else if even f then f else f + 1)"

definition ulp :: "rat \<Rightarrow> rat" where
  "ulp x = 2 powi (max (floor_log2 \<bar>x\<bar>) (- 1022) - 52)"

definition round_binary64 :: "rat \<Rightarrow> float64" where
  "round_binary64 x = (if x = 0 then 0 else of_int (round_half_even (x / ulp x)) * ulp x)"

definition float_add :: "float64 \<Rightarrow> float64 \<Rightarrow> float64" where
  "float_add a b = round_binary64 (a + b)"

definition float_sub :: "float64 \<Rightarrow> float64 \<Rightarrow> float64" where
  "float_sub a b = round_binary64 (a - b)"

definition float_mul :: "float64 \<Rightarrow> float64 \<Rightarrow> float64" where
  "float_mul a b = round_binary64 (a * b)"

definition float_of_int :: "int \<Rightarrow> float64" where
  \<comment> \<open>the conversion of the \<open>int\<close> operand in \<open>float * int\<close>\<close>
  "float_of_int n = round_binary64 (of_int n)"

text \<open>
  \<open>round(x, ndigits)\<close> of a float, for \<open>ndigits \<ge> 0\<close>: CPython converts the exact
  value of \<open>x\<close> to the decimal with \<open>ndigits\<close> fractional digits that is nearest to it
  (ties to even), and converts that decimal back to the nearest float.
\<close>

definition py_round :: "float64 \<Rightarrow> nat \<Rightarrow> float64" where
  "py_round x ndigits =
     round_binary64 (of_int (round_half_even (x * 10 ^ ndigits)) / 10 ^ ndigits)"

section \<open>The module \<open>random\<close>\<close>

text \<open>
  The program fixes no seed, so each call of the random number generator can return any
  value of its range.  A call is modelled as a function of an integer \<open>k\<close>, the
  draw, which the caller takes from the \<open>entropy\<close> of the run (below); every outcome of
  the call is the image of some draw.
  \<^item> \<open>random.random()\<close> is a multiple of \<open>2 ^ -53\<close> in \<open>[0, 1)\<close>.
  \<^item> \<open>random.uniform(a, b)\<close> is \<^verbatim>\<open>a + (b - a) * self.random()\<close>, in float arithmetic.
  \<^item> \<open>random.randint(a, b)\<close>, for \<open>a \<le> b\<close>, is an integer of \<open>[a, b]\<close>.
  \<^item> \<open>random.choice(seq)\<close> is \<open>seq[j]\<close> for some \<open>j < len(seq)\<close>, and raises
    \<open>IndexError\<close> on an empty sequence.
\<close>

datatype py_error =
    UniquenessException
  | KeyError string
  | IndexError
  | ValueError string
  | FileNotFoundError string
  | FileExistsError string
  | NotADirectoryError string
  | IsADirectoryError string
  | OSError string
  | ClientError string
  | Exception string

definition random_random :: "int \<Rightarrow> float64" where
  "random_random k = of_int (k mod 2 ^ 53) / 2 ^ 53"

definition random_uniform :: "int \<Rightarrow> float64 \<Rightarrow> float64 \<Rightarrow> float64" where
  "random_uniform k a b = float_add a (float_mul (float_sub b a) (random_random k))"

definition random_randint :: "int \<Rightarrow> int \<Rightarrow> int \<Rightarrow> int" where
  "random_randint k a b = a + k mod (b - a + 1)"

definition random_choice :: "int \<Rightarrow> 'a list \<Rightarrow> py_error + 'a" where
  "random_choice k seq =
     (if seq = [] then Inl IndexError else Inr (seq ! nat (k mod int (length seq))))"

section \<open>Configuration and the three tables\<close>

text \<open>
  The module constants \<open>NUM_CUSTOMERS\<close>, \<open>NUM_PRODUCTS\<close>, \<open>NUM_ORDERS\<close>,
  \<open>GCS_BUCKET_NAME\<close>, \<open>GCS_PROJECT_ID\<close>, \<open>GCS_SERVICE_ACCOUNT_KEY_PATH\<close> and \<open>DATA_DIR\<close>
  are the fields of a record, so that the functions can be studied for every
  configuration; \<open>default_config\<close> holds the values the module assigns.  A value that is
  either \<open>None\<close> or a string is a \<open>string option\<close>.
\<close>

record config =
  NUM_CUSTOMERS :: nat
  NUM_PRODUCTS :: nat
  NUM_ORDERS :: nat
  GCS_BUCKET_NAME :: string
  GCS_PROJECT_ID :: "string option"
  GCS_SERVICE_ACCOUNT_KEY_PATH :: "string option"
  DATA_DIR :: string

definition default_config :: config where
  "default_config =
     \<lparr>NUM_CUSTOMERS = 100, NUM_PRODUCTS = 50, NUM_ORDERS = 1000,
      GCS_BUCKET_NAME = ''repo-prod-raw-stg'',
      GCS_PROJECT_ID = Some ''pro-env-test'',
      GCS_SERVICE_ACCOUNT_KEY_PATH = Some ''None'',
      DATA_DIR = ''fake_ecommerce_data''\<rparr>"

text \<open>
  A row of each table is the dictionary the generator appends, with its keys as fields.
  The keys \<open>customer_id\<close> and \<open>product_id\<close> of an order row are the fields
  \<open>order_customer_id\<close> and \<open>order_product_id\<close>, since two records cannot share a
  field name.
\<close>

record customer =
  customer_id :: string
  name :: string
  email :: string
  address :: string
  city :: string
  state :: string
  zip_code :: string
  country :: string
  registration_date :: string

record product =
  product_id :: string
  product_name :: string
  category :: string
  price :: float64
  stock_quantity :: int

record order =
  order_id :: string
  order_customer_id :: string
  order_product_id :: string
  quantity :: int
  unit_price_at_order :: float64
  amount :: float64
  transaction_id :: string
  transaction_type :: string
  order_date :: string
  shipping_address :: string
  order_status :: string
  location :: string

text \<open>
  \<open>pd.DataFrame(rows)\<close> of a list of dictionaries with the same keys is the list of its
  rows; its columns are the keys of the first row, so the frame of an empty list has no
  column at all and selecting a column from it raises \<open>KeyError\<close>.
\<close>

type_synonym 'r data_frame = "'r list"

definition column_tolist :: "string \<Rightarrow> ('r \<Rightarrow> 'a) \<Rightarrow> 'r data_frame \<Rightarrow> py_error + 'a list" where
  \<comment> \<open>\<^verbatim>\<open>df[key].tolist()\<close>\<close>
  "column_tolist key sel df = (if df = [] then Inl (KeyError key) else Inr (map sel df))"

text \<open>
  A Python dictionary is an association list with distinct keys in insertion order:
  storing under a key that is present replaces its value and keeps its place.
\<close>

type_synonym ('k, 'v) dict = "('k \<times> 'v) list"

definition dict_of_items :: "('k \<times> 'v) list \<Rightarrow> ('k, 'v) dict" where
  "dict_of_items items = foldl (\<lambda>d (k, v). AList.update k v d) [] items"

definition dict_keys :: "('k, 'v) dict \<Rightarrow> 'k list" where
  "dict_keys d = map fst d"

definition dict_getitem :: "(string, 'v) dict \<Rightarrow> string \<Rightarrow> py_error + 'v" where
  \<comment> \<open>\<^verbatim>\<open>d[key]\<close>\<close>
  "dict_getitem d key = (case map_of d key of None \<Rightarrow> Inl (KeyError key) | Some v \<Rightarrow> Inr v)"

definition dict_get :: "('k, 'v) dict \<Rightarrow> 'k \<Rightarrow> 'v \<Rightarrow> 'v" where
  \<comment> \<open>\<^verbatim>\<open>d.get(key, default)\<close>\<close>
  "dict_get d key dflt = (case map_of d key of None \<Rightarrow> dflt | Some v \<Rightarrow> v)"

definition set_index_to_dict ::
  "string \<Rightarrow> ('r \<Rightarrow> 'k) \<Rightarrow> ('r \<Rightarrow> 'v) \<Rightarrow> 'r data_frame \<Rightarrow> py_error + ('k, 'v) dict" where
  \<comment> \<open>\<^verbatim>\<open>df.set_index(key)[col].to_dict()\<close>\<close>
  "set_index_to_dict key ksel vsel df =
     (if df = [] then Inl (KeyError (''None of ['' @ py_repr key @ ''] are in the columns''))
      else Inr (dict_of_items (zip (map ksel df) (map vsel df))))"

section \<open>The outcomes of Faker and of the random number generator\<close>

text \<open>
  Each call of \<open>fake\<close> or \<open>random\<close> in a loop body takes its outcome from the entropy of
  the run, at the index \<open>i\<close> of the iteration.  A property proved for every entropy
  holds for every run.  \<open>fake.unique\<close> raises \<open>UniquenessException\<close> when it finds no
  value it has not returned before: the outcome \<open>None\<close>.  The two timestamps are
  taken after \<open>strftime\<close>.
\<close>

record entropy =
  fake_name :: "nat \<Rightarrow> string"
  fake_unique_email :: "nat \<Rightarrow> string option"
  fake_street_address :: "nat \<Rightarrow> string"
  fake_city :: "nat \<Rightarrow> string"
  fake_state_abbr :: "nat \<Rightarrow> string"
  fake_postcode :: "nat \<Rightarrow> string"
  fake_country :: "nat \<Rightarrow> string"
  fake_registration_date :: "nat \<Rightarrow> string"
  fake_unique_word :: "nat \<Rightarrow> string option"
  draw_noun :: "nat \<Rightarrow> int"
  draw_category :: "nat \<Rightarrow> int"
  draw_price :: "nat \<Rightarrow> int"
  draw_stock :: "nat \<Rightarrow> int"
  draw_customer :: "nat \<Rightarrow> int"
  draw_product :: "nat \<Rightarrow> int"
  draw_quantity :: "nat \<Rightarrow> int"
  fake_order_date :: "nat \<Rightarrow> string"
  fake_uuid4 :: "nat \<Rightarrow> string"
  draw_transaction_type :: "nat \<Rightarrow> int"
  fake_address :: "nat \<Rightarrow> string"
  draw_order_status :: "nat \<Rightarrow> int"
  fake_city_fallback :: "nat \<Rightarrow> string"

section \<open>\<open>generate_fake_data\<close>\<close>

text \<open>
  Each \<open>for i in range(N)\<close> loop is a recursion over the list \<open>[0..<N]\<close> that carries
  the list the loop appends to.  An exception leaves the loop at once.
\<close>

fun customers_loop :: "entropy \<Rightarrow> nat list \<Rightarrow> customer list \<Rightarrow> py_error + customer list" where
  "customers_loop ent [] customers = Inr customers"
| "customers_loop ent (i # rest) customers =
     (case fake_unique_email ent i of
        None \<Rightarrow> Inl UniquenessException
      | Some unique_email \<Rightarrow>
          customers_loop ent rest
            (customers @
             [\<lparr>customer_id = ''CUST'' @ zfill 5 (str_nat (i + 1)),
               name = fake_name ent i,
               email = unique_email,
               address = fake_street_address ent i,
               city = fake_city ent i,
               state = fake_state_abbr ent i,
               zip_code = fake_postcode ent i,
               country = fake_country ent i,
               registration_date = fake_registration_date ent i\<rparr>]))"

definition product_categories :: "string list" where
  "product_categories =
     [''Electronics'', ''Books'', ''Home & Kitchen'', ''Apparel'', ''Sports & Outdoors'',
      ''Toys'', ''Beauty'']"

fun products_loop :: "entropy \<Rightarrow> nat list \<Rightarrow> product list \<Rightarrow> py_error + product list" where
  "products_loop ent [] products = Inr products"
| "products_loop ent (i # rest) products =
     (case fake_unique_word ent i of
        None \<Rightarrow> Inl UniquenessException
      | Some word \<Rightarrow>
     (case random_choice (draw_noun ent i)
             [''Gadget'', ''Book'', ''Supply'', ''Tool'', ''Accessory''] of
        Inl e \<Rightarrow> Inl e
      | Inr noun \<Rightarrow>
     (case random_choice (draw_category ent i) product_categories of
        Inl e \<Rightarrow> Inl e
      | Inr cat \<Rightarrow>
          products_loop ent rest
            (products @
             [\<lparr>product_id = ''PROD'' @ zfill 5 (str_nat (i + 1)),
               product_name = capitalize word @ '' '' @ noun,
               category = cat,
               price = py_round (random_uniform (draw_price ent i) 5 500) 2,
               stock_quantity = random_randint (draw_stock ent i) 0 1000\<rparr>]))))"

definition transaction_types :: "string list" where
  "transaction_types = [''credit_card'', ''debit_card'', ''paypal'', ''bank_transfer'']"

fun orders_loop ::
  "entropy \<Rightarrow> string list \<Rightarrow> (string, float64) dict \<Rightarrow> (string, string) dict \<Rightarrow>
   nat list \<Rightarrow> order list \<Rightarrow> py_error + order list" where
  "orders_loop ent customer_ids product_details customer_locations [] orders = Inr orders"
| "orders_loop ent customer_ids product_details customer_locations (i # rest) orders =
     (case random_choice (draw_customer ent i) customer_ids of
        Inl e \<Rightarrow> Inl e
      | Inr cid \<Rightarrow>
     (case random_choice (draw_product ent i) (dict_keys product_details) of
        Inl e \<Rightarrow> Inl e
      | Inr pid \<Rightarrow>
     (let qty = random_randint (draw_quantity ent i) 1 5 in
      case dict_getitem product_details pid of
        Inl e \<Rightarrow> Inl e
      | Inr product_price \<Rightarrow>
     (let amt = py_round (float_mul product_price (float_of_int qty)) 2 in
      case random_choice (draw_transaction_type ent i) transaction_types of
        Inl e \<Rightarrow> Inl e
      | Inr ttype \<Rightarrow>
     (case random_choice (draw_order_status ent i)
             [''pending'', ''completed'', ''shipped'', ''cancelled''] of
        Inl e \<Rightarrow> Inl e
      | Inr status \<Rightarrow>
          orders_loop ent customer_ids product_details customer_locations rest
            (orders @
             [\<lparr>order_id = ''ORD'' @ zfill 7 (str_nat (i + 1)),
               order_customer_id = cid,
               order_product_id = pid,
               quantity = qty,
               unit_price_at_order = product_price,
               amount = amt,
               transaction_id = fake_uuid4 ent i,
               transaction_type = ttype,
               order_date = fake_order_date ent i,
               shipping_address = fake_address ent i,
               order_status = status,
               location = dict_get customer_locations cid (fake_city_fallback ent i)\<rparr>]))))))"

text \<open>
  The function prints four lines; \<open>out\<close> is the standard output so far.  It returns the
  standard output and either the exception that ended it or the three frames.
\<close>

type_synonym tables = "customer data_frame \<times> product data_frame \<times> order data_frame"

definition generate_fake_data ::
  "config \<Rightarrow> entropy \<Rightarrow> string list \<Rightarrow> string list \<times> (py_error + tables)" where
  "generate_fake_data cfg ent out =
     (let out1 = out @ [''Generating fake e-commerce data...''] in
      case customers_loop ent [0..<NUM_CUSTOMERS cfg] [] of
        Inl e \<Rightarrow> (out1, Inl e)
      | Inr customers_df \<Rightarrow>
     (let out2 = out1 @ [''Generated '' @ str_nat (NUM_CUSTOMERS cfg) @ '' customers.''] in
      case products_loop ent [0..<NUM_PRODUCTS cfg] [] of
        Inl e \<Rightarrow> (out2, Inl e)
      | Inr products_df \<Rightarrow>
     (let out3 = out2 @ [''Generated '' @ str_nat (NUM_PRODUCTS cfg) @ '' products.''] in
      case column_tolist ''customer_id'' customer_id customers_df of
        Inl e \<Rightarrow> (out3, Inl e)
      | Inr customer_ids \<Rightarrow>
     (case set_index_to_dict ''product_id'' product_id price products_df of
        Inl e \<Rightarrow> (out3, Inl e)
      | Inr product_details \<Rightarrow>
     (case set_index_to_dict ''customer_id'' customer_id city customers_df of
        Inl e \<Rightarrow> (out3, Inl e)
      | Inr customer_locations \<Rightarrow>
     (case orders_loop ent customer_ids product_details customer_locations
             [0..<NUM_ORDERS cfg] [] of
        Inl e \<Rightarrow> (out3, Inl e)
      | Inr orders_df \<Rightarrow>
          (out3 @ [''Generated '' @ str_nat (NUM_ORDERS cfg) @ '' orders.''],
           Inr (customers_df, products_df, orders_df))))))))"

section \<open>The local file system and \<open>save_data_to_csv\<close>\<close>

text \<open>
  A CSV file is kept as its rows, each a list of cells: the header row holds the column
  names, and every row of the frame gives one data row (a field that contains a line
  break is quoted by the writer and stays inside its row).

  The file system is a POSIX tree without symbolic links and without permissions.  A
  location is the list of names that leads to it from the root; the file system maps a
  location to a directory or to a regular file, and the root is a directory.
\<close>

datatype cell = StrCell string | IntCell int | FloatCell float64

type_synonym csv = "cell list list"

datatype entry = Directory | RegularFile csv

type_synonym location = "string list"

type_synonym filesystem = "(location, entry) dict"

definition node :: "filesystem \<Rightarrow> location \<Rightarrow> entry option" where
  "node files loc = (if loc = [] then Some Directory else map_of files loc)"

text \<open>
  The world of a run: the lines printed so far, the current directory, the local file
  system, the order in which the operating system lists a directory (\<open>os.listdir\<close>
  promises none), and the objects of the remote buckets, under the pair of bucket name and
  object path.
\<close>

record world =
  stdout :: "string list"
  cwd :: location
  fs :: filesystem
  listdir_order :: int
  blobs :: "(string \<times> string, csv) dict"

subsection \<open>Path strings\<close>

text \<open>
  \<open>split_slash\<close> is \<open>str.split('/')\<close>.  A path string is resolved from the root when
  it starts with a slash and from the current directory otherwise.  Empty components are
  skipped, \<open>.\<close> stays, \<open>..\<close> goes to the parent (the root is its own parent), and each
  component is looked up in a location that must be an existing directory: a missing one
  is \<open>ENOENT\<close>, a regular file \<open>ENOTDIR\<close>.  The location of the last component need
  not exist.  A trailing slash asks for a directory: the path resolves as with a final
  \<open>.\<close> component.  The empty path is \<open>ENOENT\<close>.
\<close>

fun split_slash :: "string \<Rightarrow> string list" where
  "split_slash [] = [[]]"
| "split_slash (c # cs) =
     (if c = CHR ''/'' then [] # split_slash cs
      else (case split_slash cs of [] \<Rightarrow> [[c]] | x # xs \<Rightarrow> (c # x) # xs))"

definition path_names :: "string \<Rightarrow> string list" where
  "path_names p = filter (\<lambda>c. c \<noteq> []) (split_slash p)"

definition path_start :: "location \<Rightarrow> string \<Rightarrow> location" where
  "path_start current p = (if p \<noteq> [] \<and> hd p = CHR ''/'' then [] else current)"

datatype os_errno = ENOENT | EEXIST | ENOTDIR | EISDIR

definition os_error :: "os_errno \<Rightarrow> string \<Rightarrow> py_error" where
  \<comment> \<open>the subclass of \<open>OSError\<close> that Python raises for the error number, with the file name\<close>
  "os_error errno filename =
     (case errno of
        ENOENT \<Rightarrow> FileNotFoundError filename
      | EEXIST \<Rightarrow> FileExistsError filename
      | ENOTDIR \<Rightarrow> NotADirectoryError filename
      | EISDIR \<Rightarrow> IsADirectoryError filename)"

fun walk :: "filesystem \<Rightarrow> location \<Rightarrow> string list \<Rightarrow> os_errno + location" where
  "walk files loc [] = Inr loc"
| "walk files loc (c # cs) =
     (case node files loc of
        None \<Rightarrow> Inl ENOENT
      | Some (RegularFile _) \<Rightarrow> Inl ENOTDIR
      | Some Directory \<Rightarrow>
          walk files (if c = ''.'' then loc else if c = ''..'' then butlast loc else loc @ [c]) cs)"

definition resolve :: "filesystem \<Rightarrow> location \<Rightarrow> string \<Rightarrow> os_errno + location" where
  "resolve files current p =
     (if p = [] then Inl ENOENT
      else walk files (path_start current p)
             (path_names p @ (if last p = CHR ''/'' then [''.''] else [])))"

definition os_stat :: "filesystem \<Rightarrow> location \<Rightarrow> string \<Rightarrow> os_errno + entry" where
  "os_stat files current p =
     (case resolve files current p of
        Inl errno \<Rightarrow> Inl errno
      | Inr loc \<Rightarrow> (case node files loc of None \<Rightarrow> Inl ENOENT | Some en \<Rightarrow> Inr en))"

definition os_path_exists :: "filesystem \<Rightarrow> location \<Rightarrow> string \<Rightarrow> bool" where
  "os_path_exists files current p = (case os_stat files current p of Inl _ \<Rightarrow> False | Inr _ \<Rightarrow> True)"

definition os_path_isdir :: "filesystem \<Rightarrow> location \<Rightarrow> string \<Rightarrow> bool" where
  "os_path_isdir files current p = (os_stat files current p = Inr Directory)"

definition os_path_join :: "string \<Rightarrow> string \<Rightarrow> string" where
  "os_path_join a b =
     (if b \<noteq> [] \<and> hd b = CHR ''/'' then b
      else if a = [] \<or> last a = CHR ''/'' then a @ b
      else a @ ''/'' @ b)"

definition os_path_split :: "string \<Rightarrow> string \<times> string" where
  \<comment> \<open>\<open>posixpath.split\<close>: the tail is what follows the last slash; the head is the rest,
      without its trailing slashes unless it is all slashes\<close>
  "os_path_split p =
     (let tail = rev (takeWhile (\<lambda>c. c \<noteq> CHR ''/'') (rev p));
          head = take (length p - length tail) p
      in (if head \<noteq> [] \<and> head \<noteq> replicate (length head) (CHR ''/'')
          then rev (dropWhile (\<lambda>c. c = CHR ''/'') (rev head)) else head,
          tail))"

subsection \<open>\<open>os.mkdir\<close> and \<open>os.makedirs\<close>\<close>

text \<open>
  \<open>os.mkdir\<close> creates one directory; trailing slashes of its argument are ignored.  It
  raises \<open>FileExistsError\<close> when the path names something that exists, and the error of
  the resolution when a component on the way is missing or is a regular file.
\<close>

definition os_mkdir :: "filesystem \<Rightarrow> location \<Rightarrow> string \<Rightarrow> py_error + filesystem" where
  "os_mkdir files current path =
     (if path = [] then Inl (FileNotFoundError path)
      else case walk files (path_start current path) (path_names path) of
             Inl errno \<Rightarrow> Inl (os_error errno path)
           | Inr loc \<Rightarrow>
               if path_names path = [] \<or> last (path_names path) = ''.'' \<or>
                  last (path_names path) = ''..'' \<or> node files loc \<noteq> None
               then Inl (FileExistsError path)
               else Inr (AList.update loc Directory files))"

text \<open>
  \<open>os.makedirs(name, exist_ok=True)\<close>, as the standard library defines it:
  \<^verbatim>\<open>
  head, tail = path.split(name)
  if not tail:
      head, tail = path.split(head)
  if head and tail and not path.exists(head):
      try:
          makedirs(head, exist_ok=exist_ok)
      except FileExistsError:
          pass
      if tail == curdir:
          return
  try:
      mkdir(name, mode)
  except OSError:
      if not exist_ok or not path.isdir(name):
          raise
  \<close>
  The result is the file system it leaves, also when it raises, and the exception if any.
\<close>

definition makedirs_split :: "string \<Rightarrow> string \<times> string" where
  "makedirs_split path =
     (case os_path_split path of
        (head, tail) \<Rightarrow> if tail = [] then os_path_split head else (head, tail))"

definition mkdir_exist_ok :: "filesystem \<Rightarrow> location \<Rightarrow> string \<Rightarrow> filesystem \<times> py_error option" where
  "mkdir_exist_ok files current path =
     (case os_mkdir files current path of
        Inr files' \<Rightarrow> (files', None)
      | Inl e \<Rightarrow> if os_path_isdir files current path then (files, None) else (files, Some e))"

definition is_FileExistsError :: "py_error \<Rightarrow> bool" where
  "is_FileExistsError e = (case e of FileExistsError _ \<Rightarrow> True | _ \<Rightarrow> False)"

function os_makedirs_exist_ok ::
  "filesystem \<Rightarrow> location \<Rightarrow> string \<Rightarrow> filesystem \<times> py_error option" where
  "os_makedirs_exist_ok files current path =
     (let head = fst (makedirs_split path); tail = snd (makedirs_split path) in
      if head \<noteq> [] \<and> tail \<noteq> [] \<and> \<not> os_path_exists files current head then
        (case os_makedirs_exist_ok files current head of
           (files1, raised) \<Rightarrow>
             (case raised of
                Some e \<Rightarrow>
                  if is_FileExistsError e
                  then (if tail = ''.'' then (files1, None) else mkdir_exist_ok files1 current path)
                  else (files1, Some e)
              | None \<Rightarrow>
                  if tail = ''.'' then (files1, None) else mkdir_exist_ok files1 current path))
      else mkdir_exist_ok files current path)"
  by pat_completeness auto

text \<open>The recursion ends: a head with a non-empty tail is shorter than the path.\<close>

lemma os_path_split_length:
  "length (fst (os_path_split p)) \<le> length p"
  "snd (os_path_split p) \<noteq> [] \<Longrightarrow> length (fst (os_path_split p)) < length p"
proof -
  define tail where "tail = rev (takeWhile (\<lambda>c. c \<noteq> CHR ''/'') (rev p))"
  define head where "head = take (length p - length tail) p"
  have t: "length tail \<le> length p"
    using length_takeWhile_le [of "\<lambda>c. c \<noteq> CHR ''/''" "rev p"] by (simp add: tail_def)
  have h: "length head = length p - length tail" by (simp add: head_def)
  have s: "length (rev (dropWhile (\<lambda>c. c = CHR ''/'') (rev head))) \<le> length head"
    using length_dropWhile_le [of "\<lambda>c. c = CHR ''/''" "rev head"] by simp
  have f: "length (fst (os_path_split p)) \<le> length head"
    using s by (simp add: os_path_split_def Let_def tail_def [symmetric] head_def [symmetric])
  then show "length (fst (os_path_split p)) \<le> length p" using h by simp
  assume "snd (os_path_split p) \<noteq> []"
  then have "tail \<noteq> []" by (simp add: os_path_split_def Let_def tail_def)
  then have "length head < length p" using h t by (cases tail) simp_all
  with f show "length (fst (os_path_split p)) < length p" by simp
qed

lemma makedirs_split_shorter:
  "snd (makedirs_split path) \<noteq> [] \<Longrightarrow> length (fst (makedirs_split path)) < length path"
proof -
  assume a: "snd (makedirs_split path) \<noteq> []"
  obtain head tail where s: "os_path_split path = (head, tail)" by (cases "os_path_split path")
  show ?thesis
  proof (cases "tail = []")
    case True
    then have m: "makedirs_split path = os_path_split head" by (simp add: makedirs_split_def s)
    have "length (fst (os_path_split head)) < length head"
      using a unfolding m by (rule os_path_split_length(2))
    moreover have "length head \<le> length path"
      using os_path_split_length(1) [of path] by (simp add: s)
    ultimately show ?thesis by (simp add: m)
  next
    case False
    then have m: "makedirs_split path = (head, tail)" by (simp add: makedirs_split_def s)
    from False have "length (fst (os_path_split path)) < length path"
      by (intro os_path_split_length(2)) (simp add: s)
    then show ?thesis by (simp add: m s)
  qed
qed

termination os_makedirs_exist_ok
  by (relation "measure (\<lambda>(files, current, path). length path)")
    (auto dest: makedirs_split_shorter)

declare os_makedirs_exist_ok.simps [simp del]

subsection \<open>Writing a frame with pandas\<close>

text \<open>
  \<open>df.to_csv(path, index=False)\<close> first checks that \<open>Path(path).parent\<close> is a directory
  and raises a plain \<open>OSError\<close> otherwise; then it opens the path in mode \<open>w\<close>, which
  creates the file or truncates the one that is there, and writes the rows.
  \<open>pathlib_parent\<close> is \<open>str(Path(path).parent)\<close>: pathlib drops empty and \<open>.\<close>
  components and keeps a leading slash (two leading slashes when there are exactly two).
\<close>

fun join_slash :: "string list \<Rightarrow> string" where
  "join_slash [] = []"
| "join_slash [x] = x"
| "join_slash (x # y # ys) = x @ ''/'' @ join_slash (y # ys)"

definition pathlib_parent :: "string \<Rightarrow> string" where
  "pathlib_parent p =
     (let root = (if take 2 p = ''//'' \<and> take 3 p \<noteq> ''///'' then ''//''
                  else if take 1 p = ''/'' then ''/'' else []);
          parent = butlast (filter (\<lambda>c. c \<noteq> ''.'') (path_names p))
      in if root = [] \<and> parent = [] then ''.'' else root @ join_slash parent)"

definition open_w :: "filesystem \<Rightarrow> location \<Rightarrow> string \<Rightarrow> csv \<Rightarrow> py_error + filesystem" where
  \<comment> \<open>\<open>open(path, 'w')\<close> and writing \<open>content\<close>\<close>
  "open_w files current path content =
     (if path = [] then Inl (FileNotFoundError path)
      else if last path = CHR ''/'' then
        (case walk files (path_start current path) (path_names path) of
           Inl errno \<Rightarrow> Inl (os_error errno path)
         | Inr loc \<Rightarrow>
             (case node files loc of
                Some (RegularFile _) \<Rightarrow> Inl (NotADirectoryError path)
              | _ \<Rightarrow> Inl (IsADirectoryError path)))
      else
        (case resolve files current path of
           Inl errno \<Rightarrow> Inl (os_error errno path)
         | Inr loc \<Rightarrow>
             (case node files loc of
                Some Directory \<Rightarrow> Inl (IsADirectoryError path)
              | _ \<Rightarrow> Inr (AList.update loc (RegularFile content) files))))"

definition write_file :: "filesystem \<Rightarrow> location \<Rightarrow> string \<Rightarrow> csv \<Rightarrow> py_error + filesystem" where
  "write_file files current path content =
     (if \<not> os_path_isdir files current (pathlib_parent path)
      then Inl (OSError (''Cannot save file into a non-existent directory: '' @
                        quoted (pathlib_parent path)))
      else open_w files current path content)"

definition to_csv :: "string list \<Rightarrow> ('r \<Rightarrow> cell list) \<Rightarrow> 'r data_frame \<Rightarrow> csv" where
  \<comment> \<open>\<^verbatim>\<open>df.to_csv(path, index=False)\<close>: the header row, then one row for each row of the frame\<close>
  "to_csv columns cells df = map StrCell (if df = [] then [] else columns) # map cells df"

definition customer_columns :: "string list" where
  "customer_columns =
     [''customer_id'', ''name'', ''email'', ''address'', ''city'', ''state'', ''zip_code'',
      ''country'', ''registration_date'']"

definition customer_cells :: "customer \<Rightarrow> cell list" where
  "customer_cells c =
     [StrCell (customer_id c), StrCell (name c), StrCell (email c), StrCell (address c), StrCell (city c),
      StrCell (state c), StrCell (zip_code c), StrCell (country c), StrCell (registration_date c)]"

definition product_columns :: "string list" where
  "product_columns = [''product_id'', ''product_name'', ''category'', ''price'', ''stock_quantity'']"

definition product_cells :: "product \<Rightarrow> cell list" where
  "product_cells p =
     [StrCell (product_id p), StrCell (product_name p), StrCell (category p), FloatCell (price p),
      IntCell (stock_quantity p)]"

definition order_columns :: "string list" where
  "order_columns =
     [''order_id'', ''customer_id'', ''product_id'', ''quantity'', ''unit_price_at_order'',
      ''amount'', ''transaction_id'', ''transaction_type'', ''order_date'',
      ''shipping_address'', ''order_status'', ''location'']"

definition order_cells :: "order \<Rightarrow> cell list" where
  "order_cells r =
     [StrCell (order_id r), StrCell (order_customer_id r), StrCell (order_product_id r),
      IntCell (quantity r), FloatCell (unit_price_at_order r), FloatCell (amount r),
      StrCell (transaction_id r), StrCell (transaction_type r), StrCell (order_date r),
      StrCell (shipping_address r), StrCell (order_status r), StrCell (location r)]"

definition save_data_to_csv :: "config \<Rightarrow> tables \<Rightarrow> world \<Rightarrow> world \<times> (py_error + unit)" where
  "save_data_to_csv cfg dfs w =
     (case dfs of (customers_df, products_df, orders_df) \<Rightarrow>
      let w1 = w\<lparr>stdout := stdout w @ [''Saving data to local directory: '' @ DATA_DIR cfg]\<rparr> in
      case os_makedirs_exist_ok (fs w1) (cwd w1) (DATA_DIR cfg) of
        (fs1, Some e) \<Rightarrow> (w1\<lparr>fs := fs1\<rparr>, Inl e)
      | (fs1, None) \<Rightarrow>
     (case write_file fs1 (cwd w1) (os_path_join (DATA_DIR cfg) ''customers.csv'')
             (to_csv customer_columns customer_cells customers_df) of
        Inl e \<Rightarrow> (w1\<lparr>fs := fs1\<rparr>, Inl e)
      | Inr fs2 \<Rightarrow>
     (case write_file fs2 (cwd w1) (os_path_join (DATA_DIR cfg) ''products.csv'')
             (to_csv product_columns product_cells products_df) of
        Inl e \<Rightarrow> (w1\<lparr>fs := fs2\<rparr>, Inl e)
      | Inr fs3 \<Rightarrow>
     (case write_file fs3 (cwd w1) (os_path_join (DATA_DIR cfg) ''orders.csv'')
             (to_csv order_columns order_cells orders_df) of
        Inl e \<Rightarrow> (w1\<lparr>fs := fs3\<rparr>, Inl e)
      | Inr fs4 \<Rightarrow>
          (w1\<lparr>fs := fs4, stdout := stdout w1 @ [''Data saved successfully as CSV files.'']\<rparr>,
           Inr ())))))"

section \<open>\<open>upload_to_gcs\<close> and \<open>genarator\<close>\<close>

text \<open>
  The storage service is outside the program.  Its part in a run is whether each of the
  four calls made to it raises: loading the key file, constructing the client, making
  the bucket object (the library rejects a malformed bucket name), and uploading an
  object.  Credentials remember the key file they were loaded from, and a
  client remembers its project and its credentials, \<open>None\<close> for Application Default
  Credentials.  The exceptions of the client library and of \<open>os\<close> are subclasses of
  \<open>Exception\<close>, like every constructor of \<open>py_error\<close>.
\<close>

datatype credentials = ServiceAccountCredentials string

datatype storage_client = StorageClient "string option" "credentials option"

record cloud =
  from_service_account_file_raises :: "string \<Rightarrow> py_error option"
  storage_Client_raises :: "string option \<Rightarrow> credentials option \<Rightarrow> py_error option"
  bucket_raises :: "string \<Rightarrow> py_error option"
  upload_from_filename_raises :: "storage_client \<Rightarrow> string \<Rightarrow> string \<Rightarrow> py_error option"

fun str_error :: "py_error \<Rightarrow> string" where
  "str_error UniquenessException = ''Got duplicated values after 1,000 iterations.''"
| "str_error (KeyError k) = py_repr k"
| "str_error IndexError = ''Cannot choose from an empty sequence''"
| "str_error (ValueError msg) = msg"
| "str_error (FileNotFoundError f) = ''[Errno 2] No such file or directory: '' @ py_repr f"
| "str_error (FileExistsError f) = ''[Errno 17] File exists: '' @ py_repr f"
| "str_error (NotADirectoryError f) = ''[Errno 20] Not a directory: '' @ py_repr f"
| "str_error (IsADirectoryError f) = ''[Errno 21] Is a directory: '' @ py_repr f"
| "str_error (OSError msg) = msg"
| "str_error (ClientError msg) = msg"
| "str_error (Exception msg) = msg"

definition truthy :: "string option \<Rightarrow> bool" where
  \<comment> \<open>the truth value of an object that is \<open>None\<close> or a string\<close>
  "truthy v = (case v of None \<Rightarrow> False | Some s \<Rightarrow> s \<noteq> [])"

definition authenticate ::
  "cloud \<Rightarrow> string option \<Rightarrow> string option \<Rightarrow> string list \<times> (py_error + storage_client)" where
  \<comment> \<open>the \<open>if\<close> statement of \<open>upload_to_gcs\<close>: the lines it prints and the client, or the exception\<close>
  "authenticate cl project_id service_account_key_path =
     (if truthy service_account_key_path then
        (let key_path = the service_account_key_path;
             failed = (\<lambda>e. Inl (Exception (''Failed to load service account credentials from '' @
                                       key_path @ '': '' @ str_error e)))
         in ([''Authenticating with service account key: '' @ key_path],
             case from_service_account_file_raises cl key_path of
               Some e \<Rightarrow> failed e
             | None \<Rightarrow>
            (case storage_Client_raises cl project_id
                    (Some (ServiceAccountCredentials key_path)) of
               Some e \<Rightarrow> failed e
             | None \<Rightarrow> Inr (StorageClient project_id (Some (ServiceAccountCredentials key_path))))))
      else
        ([''Authenticating using Application Default Credentials (e.g., gcloud auth application-default login)''],
         case storage_Client_raises cl project_id None of
           Some e \<Rightarrow> Inl e
         | None \<Rightarrow> Inr (StorageClient project_id None)))"

text \<open>
  \<open>os.listdir\<close> returns the names in the directory in an order that the operating
  system chooses.  \<open>permute k\<close> is the arrangement of a list that the draw \<open>k\<close> selects:
  it takes the element at position \<open>k mod n\<close> first and arranges the other \<open>n - 1\<close>
  elements by \<open>k div n\<close>.
\<close>

fun permute_upto :: "nat \<Rightarrow> int \<Rightarrow> 'a list \<Rightarrow> 'a list" where
  "permute_upto 0 k xs = []"
| "permute_upto (Suc n) k xs =
     (if xs = [] then []
      else (let i = nat (k mod int (length xs))
            in xs ! i # permute_upto n (k div int (length xs)) (take i xs @ drop (Suc i) xs)))"

definition permute :: "int \<Rightarrow> 'a list \<Rightarrow> 'a list" where
  "permute k xs = permute_upto (length xs) k xs"

definition children :: "filesystem \<Rightarrow> location \<Rightarrow> string list" where
  \<comment> \<open>the names of the entries whose parent is \<open>loc\<close>\<close>
  "children files loc =
     remdups (map (\<lambda>(l, _). last l) (filter (\<lambda>(l, _). l \<noteq> [] \<and> butlast l = loc) files))"

definition os_listdir :: "filesystem \<Rightarrow> location \<Rightarrow> int \<Rightarrow> string \<Rightarrow> py_error + string list" where
  "os_listdir files current k path =
     (case resolve files current path of
        Inl errno \<Rightarrow> Inl (os_error errno path)
      | Inr loc \<Rightarrow>
          (case node files loc of
             None \<Rightarrow> Inl (FileNotFoundError path)
           | Some (RegularFile _) \<Rightarrow> Inl (NotADirectoryError path)
           | Some Directory \<Rightarrow> Inr (permute k (children files loc))))"

fun upload_loop ::
  "cloud \<Rightarrow> storage_client \<Rightarrow> string \<Rightarrow> string \<Rightarrow> string list \<Rightarrow> world \<Rightarrow>
   world \<times> (py_error + unit)" where
  "upload_loop cl client bucket_name source_directory [] w = (w, Inr ())"
| "upload_loop cl client bucket_name source_directory (filename # rest) w =
     (let local_file_path = os_path_join source_directory filename in
      case os_stat (fs w) (cwd w) local_file_path of
        Inr (RegularFile content) \<Rightarrow>
          (let blob_path = ''ecommerce_data/'' @ filename in
           case upload_from_filename_raises cl client bucket_name blob_path of
             Some e \<Rightarrow> (w, Inl e)
           | None \<Rightarrow>
               upload_loop cl client bucket_name source_directory rest
                 (w\<lparr>blobs := AList.update (bucket_name, blob_path) content (blobs w),
                    stdout := stdout w @
                      [''Uploaded '' @ filename @ '' to gs://'' @ bucket_name @ ''/'' @ blob_path]\<rparr>))
      | _ \<Rightarrow> upload_loop cl client bucket_name source_directory rest w)"

definition upload_to_gcs ::
  "cloud \<Rightarrow> string \<Rightarrow> string \<Rightarrow> string option \<Rightarrow> string option \<Rightarrow> world \<Rightarrow>
   world \<times> (py_error + unit)" where
  "upload_to_gcs cl bucket_name source_directory project_id service_account_key_path w =
     (let w1 = w\<lparr>stdout := stdout w @
                 [''Attempting to upload files from '' @ quoted source_directory @
                  '' to GCS bucket: '' @ quoted bucket_name]\<rparr> in
      case authenticate cl project_id service_account_key_path of (printed, r) \<Rightarrow>
      let w2 = w1\<lparr>stdout := stdout w1 @ printed\<rparr> in
      case r of
        Inl e \<Rightarrow> (w2, Inl e)
      | Inr storage_client \<Rightarrow>
     (case bucket_raises cl bucket_name of
        Some e \<Rightarrow> (w2, Inl e)
      | None \<Rightarrow>
     (case os_listdir (fs w2) (cwd w2) (listdir_order w2) source_directory of
        Inl e \<Rightarrow> (w2, Inl e)
      | Inr filenames \<Rightarrow>
     (case upload_loop cl storage_client bucket_name source_directory filenames w2 of
        (w3, Inl e) \<Rightarrow> (w3, Inl e)
      | (w3, Inr _) \<Rightarrow> (w3\<lparr>stdout := stdout w3 @ [''All files uploaded to GCS.'']\<rparr>, Inr ())))))"

definition upload_error_message :: string where
  "upload_error_message =
     ''An error occurred during GCS upload. Please ensure your bucket name, project ID, and authentication are correctly configured.''"

definition genarator :: "config \<Rightarrow> entropy \<Rightarrow> cloud \<Rightarrow> world \<Rightarrow> world \<times> (py_error + unit)" where
  "genarator cfg ent cl w =
     (case generate_fake_data cfg ent (stdout w) of
        (out1, Inl e) \<Rightarrow> (w\<lparr>stdout := out1\<rparr>, Inl e)
      | (out1, Inr dfs) \<Rightarrow>
     (case save_data_to_csv cfg dfs (w\<lparr>stdout := out1\<rparr>) of
        (w2, Inl e) \<Rightarrow> (w2, Inl e)
      | (w2, Inr _) \<Rightarrow>
     (case upload_to_gcs cl (GCS_BUCKET_NAME cfg) (DATA_DIR cfg) (GCS_PROJECT_ID cfg)
             (GCS_SERVICE_ACCOUNT_KEY_PATH cfg) w2 of
        (w3, Inl e) \<Rightarrow>
          (w3\<lparr>stdout := stdout w3 @ [upload_error_message, ''Error: '' @ str_error e]\<rparr>, Inr ())
      | (w3, Inr _) \<Rightarrow> (w3, Inr ()))))"

section \<open>A concrete run\<close>

text \<open>
  A run with two customers, two products and three orders.  The draws \<open>2 ^ 50\<close> and
  \<open>2 ^ 51\<close> make \<open>random.random()\<close> return \<open>0.125\<close> and \<open>0.25\<close>, so the prices are
  \<open>round(66.875, 2) = 66.88\<close> and \<open>round(128.75, 2) = 128.75\<close>.
\<close>

definition example_config :: config where
  "example_config = default_config\<lparr>NUM_CUSTOMERS := 2, NUM_PRODUCTS := 2, NUM_ORDERS := 3\<rparr>"

definition example_entropy :: entropy where
  "example_entropy =
     \<lparr>fake_name = (\<lambda>i. if i = 0 then ''Ann Lee'' else ''Bob Ray''),
      fake_unique_email = (\<lambda>i. if i = 0 then Some ''ann@example.org'' else Some ''bob@example.org''),
      fake_street_address = (\<lambda>i. ''1 Main St''),
      fake_city = (\<lambda>i. if i = 0 then ''Oslo'' else ''Rome''),
      fake_state_abbr = (\<lambda>i. ''NY''),
      fake_postcode = (\<lambda>i. ''12345''),
      fake_country = (\<lambda>i. ''Norway''),
      fake_registration_date = (\<lambda>i. ''2025-03-01 10:00:00''),
      fake_unique_word = (\<lambda>i. if i = 0 then Some ''alpha'' else Some ''beta''),
      draw_noun = (\<lambda>i. int i),
      draw_category = (\<lambda>i. int i),
      draw_price = (\<lambda>i. if i = 0 then 2 ^ 50 else 2 ^ 51),
      draw_stock = (\<lambda>i. 7),
      draw_customer = (\<lambda>i. int i),
      draw_product = (\<lambda>i. int i + 1),
      draw_quantity = (\<lambda>i. int i),
      fake_order_date = (\<lambda>i. ''2026-01-01 00:00:00''),
      fake_uuid4 = (\<lambda>i. ''0f8fad5b-d9cb-469f-a165-70867728950e''),
      draw_transaction_type = (\<lambda>i. 2),
      fake_address = (\<lambda>i. ''2 Side Rd''),
      draw_order_status = (\<lambda>i. 1),
      fake_city_fallback = (\<lambda>i. ''Paris'')\<rparr>"

definition example_customers :: "customer data_frame" where
  "example_customers =
     [\<lparr>customer_id = ''CUST00001'', name = ''Ann Lee'', email = ''ann@example.org'',
       address = ''1 Main St'', city = ''Oslo'', state = ''NY'', zip_code = ''12345'',
       country = ''Norway'', registration_date = ''2025-03-01 10:00:00''\<rparr>,
      \<lparr>customer_id = ''CUST00002'', name = ''Bob Ray'', email = ''bob@example.org'',
       address = ''1 Main St'', city = ''Rome'', state = ''NY'', zip_code = ''12345'',
       country = ''Norway'', registration_date = ''2025-03-01 10:00:00''\<rparr>]"

definition example_products :: "product data_frame" where
  "example_products =
     [\<lparr>product_id = ''PROD00001'', product_name = ''Alpha Gadget'', category = ''Electronics'',
       price = round_binary64 (6688 / 100), stock_quantity = 7\<rparr>,
      \<lparr>product_id = ''PROD00002'', product_name = ''Beta Book'', category = ''Books'',
       price = 12875 / 100, stock_quantity = 7\<rparr>]"

definition example_order :: "nat \<Rightarrow> string \<Rightarrow> string \<Rightarrow> int \<Rightarrow> float64 \<Rightarrow> float64 \<Rightarrow> string \<Rightarrow> order" where
  "example_order i cid pid qty unit_price amt loc =
     \<lparr>order_id = ''ORD'' @ zfill 7 (str_nat i), order_customer_id = cid, order_product_id = pid,
      quantity = qty, unit_price_at_order = unit_price, amount = amt,
      transaction_id = ''0f8fad5b-d9cb-469f-a165-70867728950e'', transaction_type = ''paypal'',
      order_date = ''2026-01-01 00:00:00'', shipping_address = ''2 Side Rd'',
      order_status = ''completed'', location = loc\<rparr>"

definition example_orders :: "order data_frame" where
  "example_orders =
     [example_order 1 ''CUST00001'' ''PROD00002'' 1 (12875 / 100) (12875 / 100) ''Oslo'',
      example_order 2 ''CUST00002'' ''PROD00001'' 2 (round_binary64 (6688 / 100))
        (round_binary64 (13376 / 100)) ''Rome'',
      example_order 3 ''CUST00001'' ''PROD00002'' 3 (12875 / 100) (38625 / 100) ''Oslo'']"

definition example_stdout :: "string list" where
  "example_stdout =
     [''Generating fake e-commerce data...'', ''Generated 2 customers.'',
      ''Generated 2 products.'', ''Generated 3 orders.'']"

text \<open>
  The world before the run holds an older \<open>orders.csv\<close> in the data directory.  The key
  file \<open>None\<close> of the default configuration does not exist, so loading it raises.
\<close>

definition example_world :: world where
  "example_world =
     \<lparr>stdout = [],
      cwd = [''home'', ''ann''],
      fs = [([''home''], Directory),
            ([''home'', ''ann''], Directory),
            ([''home'', ''ann'', ''fake_ecommerce_data''], Directory),
            ([''home'', ''ann'', ''fake_ecommerce_data'', ''orders.csv''],
             RegularFile [[StrCell ''order_id''], [StrCell ''ORD0000009'']])],
      listdir_order = 4,
      blobs = []\<rparr>"

definition example_tables :: tables where
  "example_tables = (example_customers, example_products, example_orders)"

definition example_saved :: world where
  "example_saved = fst (save_data_to_csv example_config example_tables (example_world\<lparr>stdout := example_stdout\<rparr>))"


definition example_cloud :: cloud where
  "example_cloud =
     \<lparr>from_service_account_file_raises = (\<lambda>path. Some (FileNotFoundError path)),
      storage_Client_raises = (\<lambda>project creds. None),
      bucket_raises = (\<lambda>bucket_name. None),
      upload_from_filename_raises = (\<lambda>client bucket_name blob_path. None)\<rparr>"

definition example_uploaded :: world where
  "example_uploaded =
     fst (upload_to_gcs example_cloud (GCS_BUCKET_NAME example_config) (DATA_DIR example_config)
            (GCS_PROJECT_ID example_config) (GCS_SERVICE_ACCOUNT_KEY_PATH example_config)
            example_saved)"

section \<open>Auxiliary definitions for the proofs\<close>

text \<open>What the loop over the orders keeps true of every row it has appended.\<close>

definition order_row_ok ::
  "string list \<Rightarrow> (string, float64) dict \<Rightarrow> (string, string) dict \<Rightarrow> order \<Rightarrow> bool" where
  "order_row_ok customer_ids product_details customer_locations r =
     (order_customer_id r \<in> set customer_ids \<and>
      map_of product_details (order_product_id r) = Some (unit_price_at_order r) \<and>
      amount r = py_round (float_mul (unit_price_at_order r) (float_of_int (quantity r))) 2 \<and>
      (\<exists>dflt. location r = dict_get customer_locations (order_customer_id r) dflt))"

text \<open>The rationals that are binary64 numbers: rounding leaves them as they are.\<close>

definition is_binary64 :: "rat \<Rightarrow> bool" where
  "is_binary64 d = (round_binary64 d = d)"

text \<open>
  A file system grows into another when every location keeps its entry or, having had
  none, has become a directory.
\<close>

definition grows :: "filesystem \<Rightarrow> filesystem \<Rightarrow> bool" where
  "grows files files' =
     (\<forall>p. node files' p = node files p \<or> (node files p = None \<and> node files' p = Some Directory))"

section \<open>Identifiers: decimal numerals are distinct\<close>

lemma digit_val_digit_char: "d < 10 \<Longrightarrow> digit_val (digit_char d) = d"
  by (simp add: digit_val_def digit_char_def)


lemma digit_char_not_sign: "d < 10 \<Longrightarrow> digit_char d \<noteq> CHR ''+'' \<and> digit_char d \<noteq> CHR ''-''"
proof -
  assume d: "d < 10"
  have "of_char (digit_char d) = (48 + d :: nat)"
    using d by (simp add: digit_char_def)
  moreover have "of_char (CHR ''+'') = (43::nat)" "of_char (CHR ''-'') = (45::nat)" by simp_all
  ultimately show ?thesis by auto
qed

lemma decimal_val_snoc: "decimal_val (s @ [c]) = 10 * decimal_val s + digit_val c"
  by (simp add: decimal_val_def)

lemma decimal_val_str_nat: "decimal_val (str_nat n) = n"
proof (induction n rule: str_nat.induct)
  case (1 n)
  show ?case
  proof (cases "n < 10")
    case True
    then show ?thesis
      by (subst str_nat.simps) (simp add: decimal_val_def digit_val_digit_char)
  next
    case False
    then have "decimal_val (str_nat n) = 10 * (n div 10) + n mod 10"
      using "1.IH" by (subst str_nat.simps) (simp add: decimal_val_snoc digit_val_digit_char)
    then show ?thesis by simp
  qed
qed

lemma decimal_val_zeros: "decimal_val (replicate k (CHR ''0'') @ s) = decimal_val s"
  by (induction k) (simp_all add: decimal_val_def digit_val_def)

lemma str_nat_first: "\<exists>d cs. d < 10 \<and> str_nat n = digit_char d # cs"
proof (induction n rule: str_nat.induct)
  case (1 n)
  show ?case
  proof (cases "n < 10")
    case True
    then show ?thesis by (subst str_nat.simps) auto
  next
    case False
    then obtain d cs where "d < 10" "str_nat (n div 10) = digit_char d # cs"
      using "1.IH" by blast
    with False show ?thesis by (subst str_nat.simps) auto
  qed
qed

lemma zfill_str_nat: "zfill w (str_nat n) = replicate (w - length (str_nat n)) (CHR ''0'') @ str_nat n"
proof -
  obtain d cs where d: "d < 10" "str_nat n = digit_char d # cs"
    using str_nat_first by blast
  then show ?thesis
    using digit_char_not_sign [OF d(1)] by (simp add: zfill_def)
qed

lemma decimal_val_zfill: "decimal_val (zfill w (str_nat n)) = n"
  by (simp add: zfill_str_nat decimal_val_zeros decimal_val_str_nat)

section \<open>Rounding to binary64 keeps the bounds 5 and 500\<close>

lemma round_half_even_ge: "of_int n \<le> x \<Longrightarrow> n \<le> round_half_even x"
proof -
  assume "of_int n \<le> x"
  then have "n \<le> \<lfloor>x\<rfloor>" by (simp add: le_floor_iff)
  then show ?thesis by (simp add: round_half_even_def Let_def)
qed

lemma round_half_even_le: "x \<le> of_int n \<Longrightarrow> round_half_even x \<le> n"
proof (cases "x = of_int n")
  case True
  then show ?thesis by (simp add: round_half_even_def)
next
  case False
  assume "x \<le> of_int n"
  with False have "x < of_int n" by simp
  then have "\<lfloor>x\<rfloor> < n" by (simp add: floor_less_iff)
  then show ?thesis by (simp add: round_half_even_def Let_def)
qed

lemma floor_log2_ge1:
  assumes "(1::rat) \<le> x"
  shows "2 powi floor_log2 x \<le> x" and "x < 2 powi (floor_log2 x + 1)"
proof -
  define n where "n = \<lfloor>x\<rfloor>"
  have n: "0 < n" using assms by (simp add: n_def)
  have b: "1 \<le> bitlen n" using n by (simp add: bitlen_alt_def)
  have fl: "floor_log2 x = bitlen n - 1" using assms by (simp add: floor_log2_def n_def)
  from bitlen_bounds [OF n] have lo: "2 ^ nat (bitlen n - 1) \<le> n" and hi: "n < 2 ^ nat (bitlen n)"
    by simp_all
  from lo have "(of_int (2 ^ nat (bitlen n - 1)) :: rat) \<le> of_int n" by (simp only: of_int_le_iff)
  also have "\<dots> \<le> x" by (simp add: n_def)
  finally have "(2::rat) ^ nat (bitlen n - 1) \<le> x" by simp
  then show "2 powi floor_log2 x \<le> x"
    using b by (simp add: fl power_int_nonneg_exp)
  from hi have "n + 1 \<le> 2 ^ nat (bitlen n)" by simp
  then have "(of_int (n + 1) :: rat) \<le> of_int (2 ^ nat (bitlen n))" by (simp only: of_int_le_iff)
  moreover have "x < of_int (n + 1)" unfolding n_def by linarith
  ultimately have "x < (2::rat) ^ nat (bitlen n)" by simp
  then show "x < 2 powi (floor_log2 x + 1)"
    using b by (simp add: fl power_int_nonneg_exp)
qed

lemma floor_log2_lt1:
  assumes "(0::rat) < x" and "x < 1"
  shows "2 powi floor_log2 x \<le> x" and "x < 2 powi (floor_log2 x + 1)"
proof -
  define y where "y = 1 / x"
  define n where "n = \<lceil>y\<rceil> - 1"
  have y: "1 < y" using assms by (simp add: y_def)
  have xy: "x = 1 / y" using assms by (simp add: y_def)
  have ny: "of_int n < y" "y \<le> of_int (n + 1)"
    unfolding n_def by linarith+
  have n: "0 < n" using y unfolding n_def by linarith
  have b: "1 \<le> bitlen n" using n by (simp add: bitlen_alt_def)
  have fl: "floor_log2 x = - bitlen n" using assms by (simp add: floor_log2_def n_def y_def)
  from bitlen_bounds [OF n] have lo: "2 ^ nat (bitlen n - 1) \<le> n" and hi: "n < 2 ^ nat (bitlen n)"
    by simp_all
  from hi have "n + 1 \<le> 2 ^ nat (bitlen n)" by simp
  then have "(of_int (n + 1) :: rat) \<le> of_int (2 ^ nat (bitlen n))" by (simp only: of_int_le_iff)
  with ny(2) have yle: "y \<le> (2::rat) ^ nat (bitlen n)" by simp
  have "2 powi floor_log2 x = 1 / (2::rat) ^ nat (bitlen n)"
    using b by (simp add: fl power_int_minus_divide power_int_nonneg_exp)
  also have "\<dots> \<le> 1 / y"
    using yle y by (simp add: frac_le)
  finally show "2 powi floor_log2 x \<le> x" by (simp add: xy)
  have "(2::rat) ^ nat (bitlen n - 1) = of_int (2 ^ nat (bitlen n - 1))" by simp
  also have "\<dots> \<le> of_int n" using lo by (simp only: of_int_le_iff)
  also have "\<dots> < y" by (rule ny(1))
  finally have ylt: "(2::rat) ^ nat (bitlen n - 1) < y" .
  have "floor_log2 x + 1 = - (bitlen n - 1)" by (simp add: fl)
  then have "2 powi (floor_log2 x + 1) = 1 / (2::rat) ^ nat (bitlen n - 1)"
    using b by (simp only: power_int_minus_divide) (simp add: power_int_nonneg_exp)
  moreover have "1 / y < 1 / (2::rat) ^ nat (bitlen n - 1)"
    using ylt by (simp add: frac_less2)
  ultimately show "x < 2 powi (floor_log2 x + 1)" by (simp add: xy)
qed

lemma floor_log2_bounds:
  assumes "(0::rat) < x"
  shows "2 powi floor_log2 x \<le> x" and "x < 2 powi (floor_log2 x + 1)"
  using floor_log2_ge1 [of x] floor_log2_lt1 [OF assms] by (cases "1 \<le> x"; simp)+

lemma two_powi_less_imp: "(2::rat) powi m < 2 powi n \<Longrightarrow> m < n"
proof (rule ccontr)
  assume a: "(2::rat) powi m < 2 powi n" and "\<not> m < n"
  then have "n \<le> m" by simp
  then have "(2::rat) powi n \<le> 2 powi m" by (rule power_int_increasing) simp
  with a show False by simp
qed

lemma floor_log2_mono:
  assumes "(0::rat) < x" and "x \<le> y"
  shows "floor_log2 x \<le> floor_log2 y"
proof -
  have "0 < y" using assms by simp
  have "2 powi floor_log2 x \<le> x" using assms(1) by (rule floor_log2_bounds)
  also have "x \<le> y" by fact
  also have "y < 2 powi (floor_log2 y + 1)" using \<open>0 < y\<close> by (rule floor_log2_bounds)
  finally have "floor_log2 x < floor_log2 y + 1" by (rule two_powi_less_imp)
  then show ?thesis by simp
qed

lemma ulp_pos: "0 < ulp x"
  by (simp add: ulp_def)

lemma round_binary64_nonneg: "0 \<le> x \<Longrightarrow> 0 \<le> round_binary64 x"
proof -
  assume "0 \<le> x"
  then have "of_int 0 \<le> x / ulp x" using ulp_pos [of x] by simp
  then have "0 \<le> round_half_even (x / ulp x)" by (rule round_half_even_ge)
  then show ?thesis using ulp_pos [of x] by (simp add: round_binary64_def)
qed

lemma is_binary64_multiple: "is_binary64 d \<Longrightarrow> \<exists>n::int. d = of_int n * ulp d"
proof (cases "d = 0")
  case True
  then have "d = of_int 0 * ulp d" by simp
  then show ?thesis by blast
next
  case False
  assume "is_binary64 d"
  with False have "d = of_int (round_half_even (d / ulp d)) * ulp d"
    by (simp add: is_binary64_def round_binary64_def)
  then show ?thesis by blast
qed

lemma ulp_eq: "0 < x \<Longrightarrow> ulp x = 2 powi (max (floor_log2 x) (- 1022) - 52)"
  by (simp add: ulp_def)

lemma two_powi_split: "(2::rat) powi e = 2 ^ k * 2 powi (e - int k)"
proof -
  have "(2::rat) powi e = 2 powi (int k + (e - int k))" by simp
  also have "\<dots> = 2 powi (int k) * 2 powi (e - int k)"
    by (rule power_int_add) simp
  finally show ?thesis by simp
qed

text \<open>A binary64 number below \<open>x\<close> stays below the rounding of \<open>x\<close>.\<close>

lemma round_binary64_ge:
  assumes d: "0 < d" "is_binary64 d" and dx: "d \<le> x"
  shows "d \<le> round_binary64 x"
proof -
  have x: "0 < x" using d(1) dx by simp
  define ed where "ed = max (floor_log2 d) (- 1022)"
  define ex where "ex = max (floor_log2 x) (- 1022)"
  have ud: "ulp d = 2 powi (ed - 52)" using d(1) by (simp add: ulp_eq ed_def)
  have ux: "ulp x = 2 powi (ex - 52)" using x by (simp add: ulp_eq ex_def)
  have rn: "round_binary64 x = of_int (round_half_even (x / ulp x)) * ulp x"
    using x by (simp add: round_binary64_def)
  have le: "ed \<le> ex"
    using floor_log2_mono [OF d(1) dx] by (simp add: ed_def ex_def)
  show ?thesis
  proof (cases "ed = ex")
    case True
    then have u: "ulp d = ulp x" by (simp add: ud ux)
    from is_binary64_multiple [OF d(2)] obtain n :: int where n: "d = of_int n * ulp x"
      unfolding u by blast
    with dx have "of_int n \<le> x / ulp x"
      using ulp_pos [of x] by (simp add: pos_le_divide_eq)
    then have "n \<le> round_half_even (x / ulp x)" by (rule round_half_even_ge)
    then have "(of_int n :: rat) \<le> of_int (round_half_even (x / ulp x))" by simp
    then have "of_int n * ulp x \<le> of_int (round_half_even (x / ulp x)) * ulp x"
      using ulp_pos [of x] by (simp only: mult_le_cancel_right_pos)
    then show ?thesis by (simp only: rn n)
  next
    case False
    with le have lt: "ed < ex" by simp
    then have fx: "floor_log2 x = ex" unfolding ex_def ed_def by linarith
    have "floor_log2 d + 1 \<le> ex" using lt unfolding ed_def by linarith
    then have "(2::rat) powi (floor_log2 d + 1) \<le> 2 powi ex"
      by (rule power_int_increasing) simp
    with floor_log2_bounds(2) [OF d(1)] have dlt: "d < 2 powi ex" by simp
    have split: "(2::rat) powi ex = 2 ^ 52 * ulp x"
      unfolding ux using two_powi_split [of ex 52] by simp
    have "2 powi ex \<le> x" using floor_log2_bounds(1) [OF x] by (simp add: fx)
    then have "of_int (2 ^ 52) \<le> x / ulp x"
      using ulp_pos [of x] by (simp add: split pos_le_divide_eq)
    then have "2 ^ 52 \<le> round_half_even (x / ulp x)" by (rule round_half_even_ge)
    then have "(of_int (2 ^ 52) :: rat) \<le> of_int (round_half_even (x / ulp x))"
      by (simp only: of_int_le_iff)
    then have "of_int (2 ^ 52) * ulp x \<le> of_int (round_half_even (x / ulp x)) * ulp x"
      using ulp_pos [of x] by (simp only: mult_le_cancel_right_pos)
    then have "2 powi ex \<le> round_binary64 x" by (simp add: rn split)
    with dlt show ?thesis by simp
  qed
qed

text \<open>A binary64 number above \<open>x\<close> stays above the rounding of \<open>x\<close>.\<close>

lemma round_binary64_le:
  assumes x: "0 < x" and d: "is_binary64 d" and xd: "x \<le> d"
  shows "round_binary64 x \<le> d"
proof -
  have d0: "0 < d" using x xd by simp
  define ed where "ed = max (floor_log2 d) (- 1022)"
  define ex where "ex = max (floor_log2 x) (- 1022)"
  have ud: "ulp d = 2 powi (ed - 52)" using d0 by (simp add: ulp_eq ed_def)
  have ux: "ulp x = 2 powi (ex - 52)" using x by (simp add: ulp_eq ex_def)
  have rn: "round_binary64 x = of_int (round_half_even (x / ulp x)) * ulp x"
    using x by (simp add: round_binary64_def)
  have le: "ex \<le> ed"
    using floor_log2_mono [OF x xd] by (simp add: ed_def ex_def)
  show ?thesis
  proof (cases "ed = ex")
    case True
    then have u: "ulp d = ulp x" by (simp add: ud ux)
    from is_binary64_multiple [OF d] obtain n :: int where n: "d = of_int n * ulp x"
      unfolding u by blast
    with xd have "x / ulp x \<le> of_int n"
      using ulp_pos [of x] by (simp add: pos_divide_le_eq)
    then have "round_half_even (x / ulp x) \<le> n" by (rule round_half_even_le)
    then have "(of_int (round_half_even (x / ulp x)) :: rat) \<le> of_int n" by simp
    then have "of_int (round_half_even (x / ulp x)) * ulp x \<le> of_int n * ulp x"
      using ulp_pos [of x] by (simp only: mult_le_cancel_right_pos)
    then show ?thesis by (simp only: rn n)
  next
    case False
    with le have lt: "ex < ed" by simp
    then have fd: "floor_log2 d = ed" unfolding ex_def ed_def by linarith
    have "floor_log2 x + 1 \<le> ex + 1" unfolding ex_def by linarith
    then have "(2::rat) powi (floor_log2 x + 1) \<le> 2 powi (ex + 1)"
      by (rule power_int_increasing) simp
    with floor_log2_bounds(2) [OF x] have xlt: "x < 2 powi (ex + 1)" by simp
    have split: "(2::rat) powi (ex + 1) = 2 ^ 53 * ulp x"
      unfolding ux using two_powi_split [of "ex + 1" 53] by simp
    from xlt have "x / ulp x \<le> of_int (2 ^ 53)"
      using ulp_pos [of x] by (simp add: split pos_divide_le_eq)
    then have "round_half_even (x / ulp x) \<le> 2 ^ 53" by (rule round_half_even_le)
    then have "(of_int (round_half_even (x / ulp x)) :: rat) \<le> of_int (2 ^ 53)"
      by (simp only: of_int_le_iff)
    then have "of_int (round_half_even (x / ulp x)) * ulp x \<le> of_int (2 ^ 53) * ulp x"
      using ulp_pos [of x] by (simp only: mult_le_cancel_right_pos)
    then have "round_binary64 x \<le> 2 powi (ex + 1)" by (simp add: rn split)
    also have "(2::rat) powi (ex + 1) \<le> 2 powi ed"
      using lt by (intro power_int_increasing) simp_all
    also have "\<dots> \<le> d" using floor_log2_bounds(1) [OF d0] by (simp add: fd)
    finally show ?thesis .
  qed
qed

lemma is_binary64_5: "is_binary64 5" by code_simp
lemma is_binary64_500: "is_binary64 500" by code_simp
lemma is_binary64_495: "is_binary64 495" by code_simp
lemma float_sub_500_5: "float_sub 500 5 = 495" by code_simp

lemma random_random_range: "0 \<le> random_random k \<and> random_random k < 1"
proof -
  have "0 \<le> k mod 2 ^ 53" "k mod 2 ^ 53 < 2 ^ 53" by simp_all
  then have "(0::rat) \<le> of_int (k mod 2 ^ 53)" "(of_int (k mod 2 ^ 53) :: rat) < of_int (2 ^ 53)"
    by (simp_all only: of_int_0_le_iff of_int_less_iff)
  then show ?thesis by (simp add: random_random_def)
qed

lemma round_binary64_between:
  assumes "is_binary64 lo" "is_binary64 hi" "0 < lo" "lo \<le> x" "x \<le> hi"
  shows "lo \<le> round_binary64 x \<and> round_binary64 x \<le> hi"
proof -
  have "0 < x" using assms by simp
  then show ?thesis
    using round_binary64_ge [OF assms(3) assms(1) assms(4)] round_binary64_le [OF _ assms(2) assms(5)]
    by simp
qed

lemma random_uniform_range: "5 \<le> random_uniform k 5 500 \<and> random_uniform k 5 500 \<le> 500"
proof -
  define r where "r = random_random k"
  have r: "0 \<le> r" "r < 1" using random_random_range [of k] by (simp_all add: r_def)
  define y where "y = float_mul 495 r"
  have y0: "0 \<le> y"
    unfolding y_def float_mul_def using r(1) by (intro round_binary64_nonneg) simp
  have y1: "y \<le> 495"
  proof (cases "r = 0")
    case True
    then show ?thesis by (simp add: y_def float_mul_def round_binary64_def)
  next
    case False
    with r have "0 < 495 * r" "495 * r \<le> 495" by simp_all
    then show ?thesis
      unfolding y_def float_mul_def using is_binary64_495 by (intro round_binary64_le)
  qed
  have "random_uniform k 5 500 = round_binary64 (5 + y)"
    by (simp add: random_uniform_def float_add_def float_sub_500_5 y_def r_def)
  moreover have "5 \<le> round_binary64 (5 + y) \<and> round_binary64 (5 + y) \<le> 500"
    using y0 y1 by (intro round_binary64_between is_binary64_5 is_binary64_500) simp_all
  ultimately show ?thesis by simp
qed

lemma py_round_2_range:
  assumes "5 \<le> x" and "x \<le> 500"
  shows "500 \<le> round_half_even (x * 10 ^ 2)" and "round_half_even (x * 10 ^ 2) \<le> 50000"
    and "5 \<le> py_round x 2" and "py_round x 2 \<le> 500"
proof -
  define k where "k = round_half_even (x * 10 ^ 2)"
  have "of_int 500 \<le> x * 10 ^ 2" using assms(1) by simp
  then show lo: "500 \<le> round_half_even (x * 10 ^ 2)" by (rule round_half_even_ge)
  have "x * 10 ^ 2 \<le> of_int 50000" using assms(2) by simp
  then show hi: "round_half_even (x * 10 ^ 2) \<le> 50000" by (rule round_half_even_le)
  have "(of_int 500 :: rat) \<le> of_int k" "(of_int k :: rat) \<le> of_int 50000"
    using lo hi unfolding k_def by (simp_all only: of_int_le_iff)
  then have "5 \<le> (of_int k :: rat) / 10 ^ 2" "(of_int k :: rat) / 10 ^ 2 \<le> 500"
    by simp_all
  then have "5 \<le> round_binary64 (of_int k / 10 ^ 2) \<and> round_binary64 (of_int k / 10 ^ 2) \<le> 500"
    by (intro round_binary64_between is_binary64_5 is_binary64_500) simp_all
  then show "5 \<le> py_round x 2" and "py_round x 2 \<le> 500"
    by (simp_all add: py_round_def k_def)
qed

lemma round_half_even_error: "\<bar>of_int (round_half_even y) - y\<bar> \<le> 1 / 2"
proof -
  have "of_int \<lfloor>y\<rfloor> \<le> y" "y < of_int \<lfloor>y\<rfloor> + 1" by linarith+
  then show ?thesis
    by (auto simp: round_half_even_def Let_def abs_le_iff)
qed

lemma round_half_even_near: "\<bar>y - of_int k\<bar> < 1 / 2 \<Longrightarrow> round_half_even y = k"
proof -
  assume a: "\<bar>y - of_int k\<bar> < 1 / 2"
  have "\<bar>(of_int (round_half_even y) :: rat) - of_int k\<bar> < 1"
    using round_half_even_error [of y] a by linarith
  then have "\<bar>(of_int (round_half_even y - k) :: rat)\<bar> < of_int 1" by simp
  then have "\<bar>round_half_even y - k\<bar> < 1"
    by (simp only: of_int_abs [symmetric] of_int_less_iff)
  then show ?thesis by simp
qed

lemma round_binary64_error: "\<bar>round_binary64 x - x\<bar> \<le> ulp x / 2"
proof (cases "x = 0")
  case True
  then show ?thesis using ulp_pos [of x] by (simp add: round_binary64_def)
next
  case False
  have "round_binary64 x - x = (of_int (round_half_even (x / ulp x)) - x / ulp x) * ulp x"
    using False ulp_pos [of x] by (simp add: round_binary64_def algebra_simps)
  then have "\<bar>round_binary64 x - x\<bar> = \<bar>of_int (round_half_even (x / ulp x)) - x / ulp x\<bar> * ulp x"
    using ulp_pos [of x] by (simp add: abs_mult)
  also have "\<dots> \<le> (1 / 2) * ulp x"
    using round_half_even_error [of "x / ulp x"] ulp_pos [of x]
    by (simp only: mult_le_cancel_right_pos)
  finally show ?thesis by simp
qed

lemma floor_log2_500: "floor_log2 500 = 8" by code_simp

lemma ulp_upto_500:
  assumes "0 < x" and "x \<le> 500"
  shows "ulp x \<le> 1 / 2 ^ 44"
proof -
  have "floor_log2 x \<le> 8" using floor_log2_mono [OF assms] by (simp add: floor_log2_500)
  then have "max (floor_log2 x) (- 1022) - 52 \<le> - 44" by simp
  then have "(2::rat) powi (max (floor_log2 x) (- 1022) - 52) \<le> 2 powi (- 44)"
    by (rule power_int_increasing) simp
  then show ?thesis using assms(1) by (simp add: ulp_eq power_int_minus_divide)
qed

lemma py_round_2_of_cents:
  assumes "500 \<le> k" and "k \<le> 50000"
  shows "py_round (round_binary64 (of_int k / 100)) 2 = round_binary64 (of_int k / 100)"
proof -
  define q :: rat where "q = of_int k / 100"
  have "(of_int 500 :: rat) \<le> of_int k" "(of_int k :: rat) \<le> of_int 50000"
    using assms by (simp_all only: of_int_le_iff)
  then have q: "0 < q" "q \<le> 500" by (simp_all add: q_def)
  have "\<bar>round_binary64 q - q\<bar> \<le> ulp q / 2" by (rule round_binary64_error)
  also have "\<dots> \<le> (1 / 2 ^ 44) / 2" using ulp_upto_500 [OF q] by simp
  finally have "\<bar>round_binary64 q - q\<bar> * 100 < 1 / 2" by simp
  moreover have "\<bar>round_binary64 q * 10 ^ 2 - of_int k\<bar> = \<bar>round_binary64 q - q\<bar> * 100"
  proof -
    have "round_binary64 q * 10 ^ 2 - of_int k = (round_binary64 q - q) * 100"
      by (simp add: q_def algebra_simps)
    then have "\<bar>round_binary64 q * 10 ^ 2 - of_int k\<bar> = \<bar>(round_binary64 q - q) * 100\<bar>"
      by (simp only:)
    also have "\<dots> = \<bar>round_binary64 q - q\<bar> * \<bar>100\<bar>"
      by (rule abs_mult)
    also have "\<dots> = \<bar>round_binary64 q - q\<bar> * 100"
      by simp
    finally show ?thesis .
  qed
  ultimately have "round_half_even (round_binary64 q * 10 ^ 2) = k"
    by (intro round_half_even_near) simp
  then show ?thesis by (simp add: py_round_def q_def)
qed

section \<open>The loops of \<open>generate_fake_data\<close>\<close>


lemma customers_loop_ids:
  "customers_loop ent idx acc = Inr cs \<Longrightarrow>
   map customer_id cs = map customer_id acc @ map (\<lambda>i. ''CUST'' @ zfill 5 (str_nat (i + 1))) idx"
  by (induction idx arbitrary: acc) (auto split: option.splits)

lemma customers_loop_returns:
  "\<forall>i\<in>set idx. fake_unique_email ent i \<noteq> None \<Longrightarrow> \<exists>cs. customers_loop ent idx acc = Inr cs"
  by (induction idx arbitrary: acc) (auto split: option.splits)

lemma random_choice_mem: "random_choice k seq = Inr x \<Longrightarrow> x \<in> set seq"
proof -
  assume a: "random_choice k seq = Inr x"
  then have ne: "seq \<noteq> []" and x: "x = seq ! nat (k mod int (length seq))"
    by (auto simp: random_choice_def split: if_splits)
  from ne have "0 < int (length seq)" by simp
  then have "0 \<le> k mod int (length seq)" "k mod int (length seq) < int (length seq)"
    by (rule pos_mod_sign, rule pos_mod_bound)
  then have "nat (k mod int (length seq)) < length seq"
    by (simp add: nat_less_iff)
  with x show ?thesis by simp
qed

lemma random_choice_returns: "seq \<noteq> [] \<Longrightarrow> \<exists>x. random_choice k seq = Inr x"
  by (simp add: random_choice_def)

lemma products_loop_ids:
  "products_loop ent idx acc = Inr ps \<Longrightarrow>
   map product_id ps = map product_id acc @ map (\<lambda>i. ''PROD'' @ zfill 5 (str_nat (i + 1))) idx"
  by (induction idx arbitrary: acc) (auto split: option.splits sum.splits)

lemma products_loop_prices:
  "products_loop ent idx acc = Inr ps \<Longrightarrow>
   map price ps = map price acc @ map (\<lambda>i. py_round (random_uniform (draw_price ent i) 5 500) 2) idx"
  by (induction idx arbitrary: acc) (auto split: option.splits sum.splits)

lemma products_loop_returns:
  "\<forall>i\<in>set idx. fake_unique_word ent i \<noteq> None \<Longrightarrow> \<exists>ps. products_loop ent idx acc = Inr ps"
proof (induction idx arbitrary: acc)
  case Nil
  then show ?case by simp
next
  case (Cons i idx)
  obtain noun where n: "random_choice (draw_noun ent i) [''Gadget'', ''Book'', ''Supply'', ''Tool'', ''Accessory''] = Inr noun"
    using random_choice_returns [of "[''Gadget'', ''Book'', ''Supply'', ''Tool'', ''Accessory'']"] by auto
  obtain cat where c: "random_choice (draw_category ent i) product_categories = Inr cat"
    using random_choice_returns [of product_categories] by (auto simp: product_categories_def)
  from Cons.prems obtain w where w: "fake_unique_word ent i = Some w" by auto
  from Cons.prems have "\<forall>i\<in>set idx. fake_unique_word ent i \<noteq> None" by simp
  from Cons.IH [OF this] show ?case
    by (simp add: n c w)
qed

lemma update_fresh: "k \<notin> fst ` set d \<Longrightarrow> AList.update k v d = d @ [(k, v)]"
  by (induction d) auto

lemma foldl_update_distinct:
  "distinct (map fst (d @ items)) \<Longrightarrow>
   foldl (\<lambda>d (k, v). AList.update k v d) d items = d @ items"
proof (induction items arbitrary: d)
  case Nil
  then show ?case by simp
next
  case (Cons kv items)
  obtain k v where kv: "kv = (k, v)" by (cases kv)
  from Cons.prems have fresh: "k \<notin> fst ` set d" by (auto simp: kv)
  from Cons.prems have "distinct (map fst ((d @ [(k, v)]) @ items))" by (simp add: kv)
  from Cons.IH [OF this] show ?case
    by (simp add: kv update_fresh [OF fresh])
qed

lemma dict_of_items_distinct: "distinct (map fst items) \<Longrightarrow> dict_of_items items = items"
  using foldl_update_distinct [of "[]" items] by (simp add: dict_of_items_def)

lemma dict_of_zip_distinct:
  "distinct ks \<Longrightarrow> length ks = length vs \<Longrightarrow> dict_of_items (zip ks vs) = zip ks vs"
  by (rule dict_of_items_distinct) simp

lemma id_numeral_inj:
  "pre @ zfill w (str_nat a) = pre @ zfill w (str_nat b) \<Longrightarrow> a = b"
proof -
  assume "pre @ zfill w (str_nat a) = pre @ zfill w (str_nat b)"
  then have "decimal_val (zfill w (str_nat a)) = decimal_val (zfill w (str_nat b))" by simp
  then show ?thesis by (simp add: decimal_val_zfill)
qed

lemma distinct_ids: "distinct idx \<Longrightarrow> distinct (map (\<lambda>i. pre @ zfill w (str_nat (i + 1))) idx)"
proof -
  assume d: "distinct idx"
  have "inj_on (\<lambda>i. pre @ zfill w (str_nat (i + 1))) (set idx)"
  proof (rule inj_onI)
    fix x y
    assume "pre @ zfill w (str_nat (x + 1)) = pre @ zfill w (str_nat (y + 1))"
    then have "x + 1 = y + 1" by (rule id_numeral_inj)
    then show "x = y" by simp
  qed
  with d show ?thesis by (simp add: distinct_map)
qed

lemma customers_loop_distinct:
  "customers_loop ent [0..<n] [] = Inr cs \<Longrightarrow> distinct (map customer_id cs)"
  using customers_loop_ids [of ent "[0..<n]" "[]" cs] distinct_ids [of "[0..<n]" "''CUST''" 5]
  by simp

lemma products_loop_distinct:
  "products_loop ent [0..<n] [] = Inr ps \<Longrightarrow> distinct (map product_id ps)"
  using products_loop_ids [of ent "[0..<n]" "[]" ps] distinct_ids [of "[0..<n]" "''PROD''" 5]
  by simp

lemma dict_getitem_Inr: "dict_getitem d k = Inr v \<Longrightarrow> map_of d k = Some v"
  by (auto simp: dict_getitem_def split: option.splits)

lemma orders_loop_rows:
  "orders_loop ent customer_ids product_details customer_locations idx acc = Inr rows \<Longrightarrow>
   list_all (order_row_ok customer_ids product_details customer_locations) acc \<Longrightarrow>
   list_all (order_row_ok customer_ids product_details customer_locations) rows"
proof (induction idx arbitrary: acc)
  case Nil
  then show ?case by simp
next
  case (Cons i idx)
  from Cons.prems(1) show ?case
    apply (simp split: sum.splits add: Let_def)
    apply (erule Cons.IH)
    using Cons.prems(2)
    apply (auto simp: order_row_ok_def dest: random_choice_mem dict_getitem_Inr)
    done
qed


lemma generate_fake_data_Inr:
  assumes "generate_fake_data cfg ent out = (out', Inr (cs, ps, rows))"
  shows "customers_loop ent [0..<NUM_CUSTOMERS cfg] [] = Inr cs"
    and "products_loop ent [0..<NUM_PRODUCTS cfg] [] = Inr ps"
    and "cs \<noteq> []" and "ps \<noteq> []"
    and "orders_loop ent (map customer_id cs)
           (dict_of_items (zip (map product_id ps) (map price ps)))
           (dict_of_items (zip (map customer_id cs) (map city cs)))
           [0..<NUM_ORDERS cfg] [] = Inr rows"
  using assms
  by (auto simp: generate_fake_data_def Let_def column_tolist_def set_index_to_dict_def
      split: sum.splits if_splits)

lemma dict_getitem_returns: "k \<in> set (dict_keys d) \<Longrightarrow> \<exists>v. dict_getitem d k = Inr v"
proof -
  assume "k \<in> set (dict_keys d)"
  then have "k \<in> fst ` set d" by (simp add: dict_keys_def)
  then have "map_of d k \<noteq> None" by (simp add: map_of_eq_None_iff)
  then show ?thesis by (auto simp: dict_getitem_def)
qed

lemma orders_loop_returns:
  assumes "customer_ids \<noteq> []" and "product_details \<noteq> []"
  shows "\<exists>rows. orders_loop ent customer_ids product_details customer_locations idx acc = Inr rows"
proof (induction idx arbitrary: acc)
  case Nil
  then show ?case by simp
next
  case (Cons i idx)
  obtain cid where 1: "random_choice (draw_customer ent i) customer_ids = Inr cid"
    using random_choice_returns [OF assms(1)] by blast
  from assms(2) have "dict_keys product_details \<noteq> []" by (simp add: dict_keys_def)
  then obtain pid where 2: "random_choice (draw_product ent i) (dict_keys product_details) = Inr pid"
    using random_choice_returns by blast
  from random_choice_mem [OF 2] have "pid \<in> set (dict_keys product_details)" .
  from dict_getitem_returns [OF this] obtain pr where 3: "dict_getitem product_details pid = Inr pr"
    by blast
  obtain tt where 4: "random_choice (draw_transaction_type ent i) transaction_types = Inr tt"
    using random_choice_returns [of transaction_types] by (auto simp: transaction_types_def)
  obtain st where 5: "random_choice (draw_order_status ent i)
      [''pending'', ''completed'', ''shipped'', ''cancelled''] = Inr st"
    using random_choice_returns [of "[''pending'', ''completed'', ''shipped'', ''cancelled'']"] by auto
  show ?case
    by (simp add: 1 2 3 4 5 Let_def Cons.IH)
qed

lemma generate_fake_data_returns:
  assumes "0 < NUM_CUSTOMERS cfg" and "0 < NUM_PRODUCTS cfg"
    and "\<forall>i<NUM_CUSTOMERS cfg. fake_unique_email ent i \<noteq> None"
    and "\<forall>i<NUM_PRODUCTS cfg. fake_unique_word ent i \<noteq> None"
  shows "\<exists>out' dfs. generate_fake_data cfg ent out = (out', Inr dfs)"
proof -
  obtain cs where cs: "customers_loop ent [0..<NUM_CUSTOMERS cfg] [] = Inr cs"
    using customers_loop_returns [of "[0..<NUM_CUSTOMERS cfg]" ent "[]"] assms(3) by auto
  obtain ps where ps: "products_loop ent [0..<NUM_PRODUCTS cfg] [] = Inr ps"
    using products_loop_returns [of "[0..<NUM_PRODUCTS cfg]" ent "[]"] assms(4) by auto
  have "length (map customer_id cs) = NUM_CUSTOMERS cfg"
    using arg_cong [OF customers_loop_ids [OF cs], of length] by simp
  with assms(1) have cne: "cs \<noteq> []" by auto
  have "length (map product_id ps) = NUM_PRODUCTS cfg"
    using arg_cong [OF products_loop_ids [OF ps], of length] by simp
  with assms(2) have pne: "ps \<noteq> []" by auto
  have dcs: "distinct (map customer_id cs)" using cs by (rule customers_loop_distinct)
  have dps: "distinct (map product_id ps)" using ps by (rule products_loop_distinct)
  have pd: "dict_of_items (zip (map product_id ps) (map price ps)) \<noteq> []"
    using pne by (simp add: dict_of_zip_distinct [OF dps])
  obtain rows where "orders_loop ent (map customer_id cs)
           (dict_of_items (zip (map product_id ps) (map price ps)))
           (dict_of_items (zip (map customer_id cs) (map city cs)))
           [0..<NUM_ORDERS cfg] [] = Inr rows"
    using orders_loop_returns [OF _ pd, where customer_ids = "map customer_id cs"] cne
    by fastforce
  then show ?thesis
    using cs ps cne pne
    by (simp add: generate_fake_data_def Let_def column_tolist_def set_index_to_dict_def)
qed

lemma generated_rows_ok:
  assumes "generate_fake_data cfg ent out = (out', Inr (cs, ps, rows))"
  shows "list_all (order_row_ok (map customer_id cs) (zip (map product_id ps) (map price ps))
           (zip (map customer_id cs) (map city cs))) rows"
    and "distinct (map customer_id cs)" and "distinct (map product_id ps)"
proof -
  note g = generate_fake_data_Inr [OF assms]
  show dcs: "distinct (map customer_id cs)" using g(1) by (rule customers_loop_distinct)
  show dps: "distinct (map product_id ps)" using g(2) by (rule products_loop_distinct)
  show "list_all (order_row_ok (map customer_id cs) (zip (map product_id ps) (map price ps))
           (zip (map customer_id cs) (map city cs))) rows"
    using orders_loop_rows [OF g(5)]
    by (simp add: dict_of_zip_distinct [OF dcs] dict_of_zip_distinct [OF dps])
qed

lemma map_of_zip_map_Some:
  "map_of (zip (map f xs) (map g xs)) k = Some v \<Longrightarrow> \<exists>x\<in>set xs. f x = k \<and> g x = v"
  by (induction xs) (auto split: if_splits)

lemma zip_map_same: "zip (map f xs) (map g xs) = map (\<lambda>x. (f x, g x)) xs"
  by (induction xs) auto

lemma map_of_zip_map_distinct:
  assumes "distinct (map f xs)" and "x \<in> set xs"
  shows "map_of (zip (map f xs) (map g xs)) (f x) = Some (g x)"
proof -
  have "distinct (map fst (map (\<lambda>x. (f x, g x)) xs))"
    using assms(1) by (simp add: comp_def)
  moreover have "(f x, g x) \<in> set (map (\<lambda>x. (f x, g x)) xs)"
    using assms(2) by auto
  ultimately show ?thesis
    by (simp only: zip_map_same map_of_eq_Some_iff)
qed

lemma generate_example:
  "generate_fake_data example_config example_entropy [] =
     (example_stdout, Inr (example_customers, example_products, example_orders))"
  by code_simp

lemma customers_example: "customers_loop example_entropy [0..<2] [] = Inr example_customers"
  by code_simp

section \<open>The file system\<close>

text \<open>Updating a location other than the root changes the entry of that location only.\<close>

lemma node_update:
  "l \<noteq> [] \<Longrightarrow> node (AList.update l e files) p = (if p = l then Some e else node files p)"
  by (simp add: node_def update_conv')



lemma grows_keeps_dirs: "grows files files' \<Longrightarrow> node files p = Some Directory \<Longrightarrow> node files' p = Some Directory"
  unfolding grows_def by (metis option.distinct(1))





text \<open>Path strings and their components.\<close>

lemma split_slash_not_Nil: "split_slash s \<noteq> []"
  by (induction s) (auto split: list.splits)

lemma split_slash_append: "split_slash (a @ CHR ''/'' # b) = split_slash a @ split_slash b"
proof (induction a)
  case Nil
  then show ?case by simp
next
  case (Cons c a)
  obtain x xs where x: "split_slash a = x # xs"
    using split_slash_not_Nil [of a] by (cases "split_slash a") auto
  show ?case using Cons by (simp add: x)
qed

lemma split_slash_simple: "CHR ''/'' \<notin> set f \<Longrightarrow> split_slash f = [f]"
  by (induction f) auto

lemma path_names_append:
  "f \<noteq> [] \<Longrightarrow> CHR ''/'' \<notin> set f \<Longrightarrow> path_names (a @ CHR ''/'' # f) = path_names a @ [f]"
  by (simp add: path_names_def split_slash_append split_slash_simple)

lemma path_names_trailing: "path_names (a @ ''/'') = path_names a"
  by (simp add: path_names_def split_slash_append)

text \<open>Joining a directory and a plain file name.\<close>

lemma os_path_join_plain:
  assumes "D \<noteq> []" and "f \<noteq> []" and "CHR ''/'' \<notin> set f"
  shows "path_names (os_path_join D f) = path_names D @ [f]"
    and "path_start current (os_path_join D f) = path_start current D"
    and "os_path_join D f \<noteq> []"
    and "last (os_path_join D f) \<noteq> CHR ''/''"
proof -
  from assms(2,3) have hf: "hd f \<noteq> CHR ''/''" by (cases f) auto
  from assms(2,3) have lf: "last f \<noteq> CHR ''/''" using last_in_set by metis
  show "path_names (os_path_join D f) = path_names D @ [f]"
  proof (cases "last D = CHR ''/''")
    case True
    then have D: "D = butlast D @ ''/''" using assms(1) append_butlast_last_id [of D] by simp
    have "os_path_join D f = butlast D @ CHR ''/'' # f"
      proof -
      have "os_path_join (butlast D @ ''/'') f = butlast D @ CHR ''/'' # f"
        using hf assms(2) by (simp add: os_path_join_def)
      then show ?thesis using D by simp
    qed
    moreover have "path_names D = path_names (butlast D)"
      by (subst D) (rule path_names_trailing)
    ultimately show ?thesis using assms(2,3) by (simp add: path_names_append)
  next
    case False
    then have "os_path_join D f = D @ CHR ''/'' # f"
      using hf assms(1,2) by (simp add: os_path_join_def)
    then show ?thesis using assms(2,3) by (simp add: path_names_append)
  qed
  show "path_start current (os_path_join D f) = path_start current D"
    using assms(1,2) hf by (cases D) (auto simp: os_path_join_def path_start_def)
  show "os_path_join D f \<noteq> []"
    using assms(2) by (simp add: os_path_join_def)
  show "last (os_path_join D f) \<noteq> CHR ''/''"
    using assms(2) lf hf by (simp add: os_path_join_def)
qed

lemma walk_append:
  "walk files loc (xs @ ys) =
     (case walk files loc xs of Inl errno \<Rightarrow> Inl errno | Inr l \<Rightarrow> walk files l ys)"
  by (induction xs arbitrary: loc) (auto split: option.splits entry.splits)

lemma walk_keeps:
  assumes "\<And>p. node files p = Some Directory \<Longrightarrow> node files' p = Some Directory"
  shows "walk files loc cs = Inr l \<Longrightarrow> walk files' loc cs = Inr l"
proof (induction cs arbitrary: loc)
  case Nil
  then show ?case by simp
next
  case (Cons c cs)
  from Cons.prems have d: "node files loc = Some Directory"
    by (auto split: option.splits entry.splits)
  with Cons.prems have "walk files (if c = ''.'' then loc else if c = ''..'' then butlast loc else loc @ [c]) cs = Inr l"
    by simp
  from Cons.IH [OF this] assms [OF d] show ?case by simp
qed

section \<open>Saving, uploading and the top-level run\<close>


lemma resolve_file:
  assumes "walk files (path_start current D) (path_names D) = Inr d"
    and "node files d = Some Directory"
    and "D \<noteq> []" and "f \<noteq> []" and "CHR ''/'' \<notin> set f" and "f \<noteq> ''.''" and "f \<noteq> ''..''"
  shows "resolve files current (os_path_join D f) = Inr (d @ [f])"
  using assms os_path_join_plain [of D f]
  by (simp add: resolve_def walk_append)




lemma write_keeps_dirs:
  assumes "node files l \<noteq> Some Directory" and "l \<noteq> []"
    and "node files p = Some Directory"
  shows "node (AList.update l (RegularFile content) files) p = Some Directory"
  using assms by (auto simp: node_update)


text \<open>When writing succeeds; the example world.\<close>

lemma makedirs_example:
  "os_makedirs_exist_ok (fs example_world) (cwd example_world) ''fake_ecommerce_data'' =
     (fs example_world, None)"
  by code_simp

lemma parents_example:
  "pathlib_parent (os_path_join ''fake_ecommerce_data'' ''customers.csv'') = ''fake_ecommerce_data''"
  "pathlib_parent (os_path_join ''fake_ecommerce_data'' ''products.csv'') = ''fake_ecommerce_data''"
  "pathlib_parent (os_path_join ''fake_ecommerce_data'' ''orders.csv'') = ''fake_ecommerce_data''"
  by code_simp+

lemma walk_example:
  "walk (fs example_world) (path_start (cwd example_world) ''fake_ecommerce_data'')
     (path_names ''fake_ecommerce_data'') = Inr [''home'', ''ann'', ''fake_ecommerce_data'']"
  "node (fs example_world) [''home'', ''ann'', ''fake_ecommerce_data''] = Some Directory"
  "node (fs example_world) [''home'', ''ann'', ''fake_ecommerce_data'', ''customers.csv''] = None"
  "node (fs example_world) [''home'', ''ann'', ''fake_ecommerce_data'', ''products.csv''] = None"
  "node (fs example_world) [''home'', ''ann'', ''fake_ecommerce_data'', ''orders.csv''] \<noteq> Some Directory"
  by code_simp+

lemma os_path_isdir_keeps:
  assumes k: "\<And>p. node files p = Some Directory \<Longrightarrow> node files' p = Some Directory"
    and d: "os_path_isdir files current path"
  shows "os_path_isdir files' current path"
proof -
  from d obtain loc where r: "resolve files current path = Inr loc"
    and n: "node files loc = Some Directory"
    by (auto simp: os_path_isdir_def os_stat_def split: sum.splits option.splits)
  from r have ne: "path \<noteq> []" by (auto simp: resolve_def split: if_splits)
  with r have "walk files (path_start current path)
      (path_names path @ (if last path = CHR ''/'' then [''.''] else [])) = Inr loc"
    by (simp add: resolve_def)
  from walk_keeps [of files files', OF k this] ne have "resolve files' current path = Inr loc"
    by (simp add: resolve_def)
  with k [OF n] show ?thesis by (simp add: os_path_isdir_def os_stat_def)
qed

lemma write_file_success:
  assumes w: "walk files (path_start current D) (path_names D) = Inr d"
    and n: "node files d = Some Directory"
    and nf: "node files (d @ [f]) \<noteq> Some Directory"
    and D: "D \<noteq> []" and f: "f \<noteq> []" "CHR ''/'' \<notin> set f" "f \<noteq> ''.''" "f \<noteq> ''..''"
    and p: "os_path_isdir files current (pathlib_parent (os_path_join D f))"
  shows "write_file files current (os_path_join D f) content =
           Inr (AList.update (d @ [f]) (RegularFile content) files)"
proof -
  note j = os_path_join_plain [OF D f(1,2)]
  note r = resolve_file [OF w n D f]
  from nf have "(case node files (d @ [f]) of
           Some Directory \<Rightarrow> Inl (IsADirectoryError (os_path_join D f))
         | _ \<Rightarrow> Inr (AList.update (d @ [f]) (RegularFile content) files)) =
        Inr (AList.update (d @ [f]) (RegularFile content) files)"
    by (auto split: option.splits entry.splits)
  with p j r show ?thesis by (simp add: write_file_def open_w_def)
qed

lemma save_into_example_world:
  "\<exists>w2. save_data_to_csv default_config dfs (example_world\<lparr>stdout := out1\<rparr>) = (w2, Inr ())"
proof -
  obtain cs ps rows where dfs: "dfs = (cs, ps, rows)" by (cases dfs)
  let ?D = "''fake_ecommerce_data''"
  let ?d = "[''home'', ''ann'', ''fake_ecommerce_data'']"
  let ?c = "cwd example_world"
  let ?fs1 = "fs example_world"
  let ?fs2 = "AList.update (?d @ [''customers.csv'']) (RegularFile (to_csv customer_columns customer_cells cs)) ?fs1"
  let ?fs3 = "AList.update (?d @ [''products.csv'']) (RegularFile (to_csv product_columns product_cells ps)) ?fs2"
  let ?fs4 = "AList.update (?d @ [''orders.csv'']) (RegularFile (to_csv order_columns order_cells rows)) ?fs3"
  have p1: "os_path_isdir ?fs1 ?c ?D" by code_simp
  have k2: "\<And>p. node ?fs1 p = Some Directory \<Longrightarrow> node ?fs2 p = Some Directory"
    by (rule write_keeps_dirs) (simp_all add: walk_example)
  have n2: "node ?fs2 (?d @ [''products.csv'']) \<noteq> Some Directory"
    by (simp add: node_update walk_example)
  have k3: "\<And>p. node ?fs2 p = Some Directory \<Longrightarrow> node ?fs3 p = Some Directory"
    using n2 by (rule write_keeps_dirs) simp_all
  have n3: "node ?fs3 (?d @ [''orders.csv'']) \<noteq> Some Directory"
    using walk_example(5) by (simp add: node_update)
  have 1: "write_file ?fs1 ?c (os_path_join ?D ''customers.csv'')
             (to_csv customer_columns customer_cells cs) = Inr ?fs2"
    by (rule write_file_success) (simp_all add: walk_example parents_example p1)
  have w2: "walk ?fs2 (path_start ?c ?D) (path_names ?D) = Inr ?d"
    using k2 walk_example(1) by (rule walk_keeps)
  have 2: "write_file ?fs2 ?c (os_path_join ?D ''products.csv'')
             (to_csv product_columns product_cells ps) = Inr ?fs3"
    using w2 k2 [OF walk_example(2)] n2
  proof (rule write_file_success)
    show "os_path_isdir ?fs2 ?c (pathlib_parent (os_path_join ?D ''products.csv''))"
      unfolding parents_example using k2 p1 by (rule os_path_isdir_keeps)
  qed simp_all
  have w3: "walk ?fs3 (path_start ?c ?D) (path_names ?D) = Inr ?d"
    using k3 w2 by (rule walk_keeps)
  have 3: "write_file ?fs3 ?c (os_path_join ?D ''orders.csv'')
             (to_csv order_columns order_cells rows) = Inr ?fs4"
    using w3 k3 [OF k2 [OF walk_example(2)]] n3
  proof (rule write_file_success)
    have "os_path_isdir ?fs2 ?c ?D" using k2 p1 by (rule os_path_isdir_keeps)
    with k3 show "os_path_isdir ?fs3 ?c (pathlib_parent (os_path_join ?D ''orders.csv''))"
      unfolding parents_example by (rule os_path_isdir_keeps)
  qed simp_all
  have D: "DATA_DIR default_config = ?D" by (simp add: default_config_def)
  show ?thesis
    unfolding dfs using 1 2 3 makedirs_example
    by (simp add: save_data_to_csv_def D Let_def)
qed

lemma upload_loop_stdout:
  "upload_loop cl client bucket_name source_directory filenames w = (w', r) \<Longrightarrow>
   \<exists>printed. stdout w' = stdout w @ printed \<and> (\<forall>l\<in>set printed. take 9 l = ''Uploaded '')"
proof (induction filenames arbitrary: w)
  case Nil
  then show ?case by simp
next
  case (Cons filename rest)
  let ?bp = "''ecommerce_data/'' @ filename"
  let ?line = "''Uploaded '' @ filename @ '' to gs://'' @ bucket_name @ ''/'' @ ?bp"
  consider (skip) "upload_loop cl client bucket_name source_directory rest w = (w', r)"
    | (raised) "w' = w"
    | (uploaded) content where
        "upload_loop cl client bucket_name source_directory rest
           (w\<lparr>blobs := AList.update (bucket_name, ?bp) content (blobs w),
              stdout := stdout w @ [?line]\<rparr>) = (w', r)"
    using Cons.prems
    by (auto simp: Let_def split: sum.splits entry.splits option.splits)
  then show ?case
  proof cases
    case skip
    then show ?thesis by (rule Cons.IH)
  next
    case raised
    then show ?thesis by simp
  next
    case (uploaded content)
    from Cons.IH [OF this] obtain printed where
      p: "stdout w' = (stdout w @ [?line]) @ printed" "\<forall>l\<in>set printed. take 9 l = ''Uploaded ''"
      by auto
    have "stdout w' = stdout w @ (?line # printed)" using p(1) by simp
    moreover have "\<forall>l\<in>set (?line # printed). take 9 l = ''Uploaded ''" using p(2) by simp
    ultimately show ?thesis by blast
  qed
qed

lemma authenticate_truthy:
  assumes "s \<noteq> []"
  shows "fst (authenticate cl project (Some s)) = [''Authenticating with service account key: '' @ s]"
    and "snd (authenticate cl project (Some s)) = Inr client \<Longrightarrow>
           client = StorageClient project (Some (ServiceAccountCredentials s))"
  using assms by (auto simp: authenticate_def truthy_def Let_def split: option.splits)

lemma upload_to_gcs_stdout:
  "\<exists>rest. stdout (fst (upload_to_gcs cl bucket_name source_directory project v w)) =
           stdout w @
           [''Attempting to upload files from '' @ quoted source_directory @
              '' to GCS bucket: '' @ quoted bucket_name] @
           fst (authenticate cl project v) @ rest \<and>
           (\<forall>l\<in>set rest. take 9 l = ''Uploaded '' \<or> l = ''All files uploaded to GCS.'')"
proof -
  let ?attempt = "''Attempting to upload files from '' @ quoted source_directory @
              '' to GCS bucket: '' @ quoted bucket_name"
  obtain printed r where a: "authenticate cl project v = (printed, r)"
    by (cases "authenticate cl project v")
  let ?w2 = "w\<lparr>stdout := stdout w @ ?attempt # printed\<rparr>"
  let ?u = "upload_to_gcs cl bucket_name source_directory project v w"
  have none: "stdout (fst ?u) = stdout w @ [?attempt] @ printed @ [] \<Longrightarrow> ?thesis"
    unfolding a by (intro exI [of _ "[]"]) simp
  show ?thesis
  proof (cases r)
    case (Inl e)
    then have "stdout (fst ?u) = stdout w @ [?attempt] @ printed @ []"
      by (simp add: upload_to_gcs_def a)
    then show ?thesis by (rule none)
  next
    case (Inr client)
    show ?thesis
    proof (cases "bucket_raises cl bucket_name")
      case (Some e)
      then have "stdout (fst ?u) = stdout w @ [?attempt] @ printed @ []"
        by (simp add: upload_to_gcs_def a Inr)
      then show ?thesis by (rule none)
    next
      case None
      show ?thesis
      proof (cases "os_listdir (fs w) (cwd w) (listdir_order w) source_directory")
        case (Inl e)
        then have "stdout (fst ?u) = stdout w @ [?attempt] @ printed @ []"
          by (simp add: upload_to_gcs_def a Inr None)
        then show ?thesis by (rule none)
      next
        case names: (Inr filenames)
        obtain w3 r3 where l: "upload_loop cl client bucket_name source_directory filenames ?w2 = (w3, r3)"
          by (cases "upload_loop cl client bucket_name source_directory filenames ?w2")
        from upload_loop_stdout [OF l] obtain lines where
          lines: "stdout w3 = stdout ?w2 @ lines" "\<forall>l\<in>set lines. take 9 l = ''Uploaded ''"
          by blast
        show ?thesis
        proof (cases r3)
          case (Inl e)
          then have "stdout (fst ?u) = stdout w @ [?attempt] @ printed @ lines"
            using names l lines(1) by (simp add: upload_to_gcs_def a Inr None)
          with lines(2) show ?thesis unfolding a by auto
        next
          case r3: (Inr u)
          then have "stdout (fst ?u) =
              stdout w @ [?attempt] @ printed @ (lines @ [''All files uploaded to GCS.''])"
            using names l lines(1) by (simp add: upload_to_gcs_def a Inr None)
          moreover have "\<forall>l\<in>set (lines @ [''All files uploaded to GCS.'']).
              take 9 l = ''Uploaded '' \<or> l = ''All files uploaded to GCS.''"
            using lines(2) by auto
          ultimately show ?thesis unfolding a by auto
        qed
      qed
    qed
  qed
qed

lemma genarator_stdout:
  assumes "generate_fake_data cfg ent (stdout w) = (out1, Inr dfs)"
    and "save_data_to_csv cfg dfs (w\<lparr>stdout := out1\<rparr>) = (w2, Inr ())"
  shows "\<exists>tail. stdout (fst (genarator cfg ent cl w)) =
           stdout (fst (upload_to_gcs cl (GCS_BUCKET_NAME cfg) (DATA_DIR cfg) (GCS_PROJECT_ID cfg)
             (GCS_SERVICE_ACCOUNT_KEY_PATH cfg) w2)) @ tail \<and>
           (tail = [] \<or> (\<exists>e. tail = [upload_error_message, ''Error: '' @ str_error e]))"
proof -
  obtain w3 r where u: "upload_to_gcs cl (GCS_BUCKET_NAME cfg) (DATA_DIR cfg) (GCS_PROJECT_ID cfg)
             (GCS_SERVICE_ACCOUNT_KEY_PATH cfg) w2 = (w3, r)"
    by (cases "upload_to_gcs cl (GCS_BUCKET_NAME cfg) (DATA_DIR cfg) (GCS_PROJECT_ID cfg)
             (GCS_SERVICE_ACCOUNT_KEY_PATH cfg) w2")
  show ?thesis
  proof (cases r)
    case (Inl e)
    then have "stdout (fst (genarator cfg ent cl w)) =
        stdout w3 @ [upload_error_message, ''Error: '' @ str_error e]"
      using assms u by (simp add: genarator_def)
    then show ?thesis using u by auto
  next
    case (Inr x)
    then have "stdout (fst (genarator cfg ent cl w)) = stdout w3 @ []"
      using assms u by (simp add: genarator_def)
    then show ?thesis using u by auto
  qed
qed

lemma upload_to_gcs_service_account_stdout:
  assumes "s \<noteq> []"
  shows "\<exists>rest. stdout (fst (upload_to_gcs cl bucket_name source_directory project (Some s) w)) =
           stdout w @
           [''Attempting to upload files from '' @ quoted source_directory @
              '' to GCS bucket: '' @ quoted bucket_name,
            ''Authenticating with service account key: '' @ s] @ rest \<and>
           (\<forall>l\<in>set rest. take 9 l = ''Uploaded '' \<or> l = ''All files uploaded to GCS.'')"
  using upload_to_gcs_stdout [of cl bucket_name source_directory project "Some s" w]
    authenticate_truthy(1) [OF assms, of cl project]
  by simp

lemma save_example:
  "save_data_to_csv example_config (example_customers, example_products, example_orders)
     (example_world\<lparr>stdout := example_stdout\<rparr>) = (example_saved, Inr ())"
  by code_simp

lemma upload_example:
  "upload_to_gcs example_cloud (GCS_BUCKET_NAME example_config) (DATA_DIR example_config)
     (GCS_PROJECT_ID example_config) (GCS_SERVICE_ACCOUNT_KEY_PATH example_config) example_saved =
   (example_uploaded,
    Inl (Exception (''Failed to load service account credentials from None: '' @
                    str_error (FileNotFoundError ''None''))))"
  by code_simp

lemma generate_no_customers_example:
  "generate_fake_data (example_config\<lparr>NUM_CUSTOMERS := 0\<rparr>) example_entropy (stdout example_world) =
     ([''Generating fake e-commerce data...'', ''Generated 0 customers.'', ''Generated 2 products.''],
      Inl (KeyError ''customer_id''))"
  by code_simp

lemma genarator_no_customers_example:
  "genarator (example_config\<lparr>NUM_CUSTOMERS := 0\<rparr>) example_entropy example_cloud example_world =
     (example_world\<lparr>stdout := [''Generating fake e-commerce data...'', ''Generated 0 customers.'',
        ''Generated 2 products.'']\<rparr>, Inl (KeyError ''customer_id''))"
  by code_simp



text \<open>
  Exports that raise: the empty path, a path through a regular file, and a data directory
  in which \<open>customers.csv\<close> is a directory.
\<close>

lemma save_raises_example:
  "snd (save_data_to_csv (example_config\<lparr>DATA_DIR := []\<rparr>) example_tables example_world) =
     Inl (FileNotFoundError [])"
  "snd (save_data_to_csv (example_config\<lparr>DATA_DIR := ''fake_ecommerce_data/orders.csv/x''\<rparr>)
          example_tables example_world) =
     Inl (NotADirectoryError ''fake_ecommerce_data/orders.csv/x'')"
  "snd (save_data_to_csv example_config example_tables
          (example_world\<lparr>fs := fs example_world @
             [([''home'', ''ann'', ''fake_ecommerce_data'', ''customers.csv''], Directory)]\<rparr>)) =
     Inl (IsADirectoryError ''fake_ecommerce_data/customers.csv'')"
  by code_simp+

section \<open>The claims of the specification\<close>

text \<open>
  Claim C1.  In every run of \<open>generate_fake_data\<close> that returns, each order row has a
  \<open>customer_id\<close> that occurs in the \<open>customer_id\<close> column of the returned customer
  table and a \<open>product_id\<close> that occurs in the \<open>product_id\<close> column of the returned
  product table.  (A run returns whenever both counts are positive and
  \<open>fake.unique\<close> never gives up, see \<open>generate_fake_data_returns\<close>; with a count
  of zero customers or products it raises \<open>KeyError\<close>.)
\<close>

theorem orders_reference_generated_rows:
  assumes "generate_fake_data cfg ent out = (out', Inr (cs, ps, rows))"
    and "r \<in> set rows"
  shows "order_customer_id r \<in> set (map customer_id cs) \<and>
         order_product_id r \<in> set (map product_id ps)"
proof -
  have "order_row_ok (map customer_id cs) (zip (map product_id ps) (map price ps))
           (zip (map customer_id cs) (map city cs)) r"
    using generated_rows_ok(1) [OF assms(1)] assms(2) by (simp add: list_all_iff)
  then have c: "order_customer_id r \<in> set (map customer_id cs)"
    and p: "map_of (zip (map product_id ps) (map price ps)) (order_product_id r)
              = Some (unit_price_at_order r)"
    by (simp_all add: order_row_ok_def)
  from map_of_zip_map_Some [OF p] obtain x where "x \<in> set ps" "product_id x = order_product_id r"
    by blast
  then have "order_product_id r \<in> set (map product_id ps)"
    by (metis image_eqI set_map)
  with c show ?thesis by simp
qed

theorem orders_reference_generated_rows_witness:
  "generate_fake_data example_config example_entropy [] =
     (example_stdout, Inr (example_customers, example_products, example_orders)) \<and>
   example_orders ! 1 \<in> set example_orders \<and>
   order_customer_id (example_orders ! 1) \<in> set (map customer_id example_customers) \<and>
   order_product_id (example_orders ! 1) \<in> set (map product_id example_products)"
proof -
  note g = generate_example
  have m: "example_orders ! 1 \<in> set example_orders" by (simp add: example_orders_def)
  from orders_reference_generated_rows [OF g m] g m show ?thesis by blast
qed

text \<open>
  Claim C2.  In every run of \<open>generate_fake_data\<close> that returns, the \<open>amount\<close> of each
  order row is \<open>round(unit_price_at_order * quantity, 2)\<close>, computed in float
  arithmetic from the row's own \<open>unit_price_at_order\<close> and \<open>quantity\<close>.
\<close>

theorem amount_is_rounded_product:
  assumes "generate_fake_data cfg ent out = (out', Inr (cs, ps, rows))"
    and "r \<in> set rows"
  shows "amount r = py_round (float_mul (unit_price_at_order r) (float_of_int (quantity r))) 2"
proof -
  have "order_row_ok (map customer_id cs) (zip (map product_id ps) (map price ps))
           (zip (map customer_id cs) (map city cs)) r"
    using generated_rows_ok(1) [OF assms(1)] assms(2) by (simp add: list_all_iff)
  then show ?thesis by (simp add: order_row_ok_def)
qed

theorem amount_is_rounded_product_witness:
  "generate_fake_data example_config example_entropy [] =
     (example_stdout, Inr (example_customers, example_products, example_orders)) \<and>
   example_orders ! 1 \<in> set example_orders \<and>
   amount (example_orders ! 1) =
     py_round (float_mul (unit_price_at_order (example_orders ! 1))
       (float_of_int (quantity (example_orders ! 1)))) 2"
proof -
  note g = generate_example
  have m: "example_orders ! 1 \<in> set example_orders" by (simp add: example_orders_def)
  from amount_is_rounded_product [OF g m] g m show ?thesis by blast
qed

text \<open>
  Claim C3.  In every run of \<open>generate_fake_data\<close> that returns, each order row refers
  to a row of the returned product table, the product ids of that table are distinct,
  and the \<open>unit_price_at_order\<close> of the order row is the \<open>price\<close> of the product row
  with the order's \<open>product_id\<close>.
\<close>

theorem unit_price_is_product_price:
  assumes "generate_fake_data cfg ent out = (out', Inr (cs, ps, rows))"
    and "r \<in> set rows"
  shows "(\<exists>p\<in>set ps. product_id p = order_product_id r) \<and>
         (\<forall>p\<in>set ps. product_id p = order_product_id r \<longrightarrow> unit_price_at_order r = price p) \<and>
         distinct (map product_id ps)"
proof -
  note ok = generated_rows_ok [OF assms(1)]
  have r: "map_of (zip (map product_id ps) (map price ps)) (order_product_id r)
             = Some (unit_price_at_order r)"
    using ok(1) assms(2) by (simp add: list_all_iff order_row_ok_def)
  have "\<exists>p\<in>set ps. product_id p = order_product_id r"
    using map_of_zip_map_Some [OF r] by blast
  moreover have "unit_price_at_order r = price p"
    if "p \<in> set ps" "product_id p = order_product_id r" for p
    using map_of_zip_map_distinct [OF ok(3) that(1), of price] r that(2) by simp
  ultimately show ?thesis using ok(3) by blast
qed

theorem unit_price_is_product_price_witness:
  "generate_fake_data example_config example_entropy [] =
     (example_stdout, Inr (example_customers, example_products, example_orders)) \<and>
   example_orders ! 1 \<in> set example_orders \<and>
   example_products ! 0 \<in> set example_products \<and>
   product_id (example_products ! 0) = order_product_id (example_orders ! 1) \<and>
   unit_price_at_order (example_orders ! 1) = price (example_products ! 0)"
proof -
  note g = generate_example
  have m: "example_orders ! 1 \<in> set example_orders" by (simp add: example_orders_def)
  have p: "example_products ! 0 \<in> set example_products" by (simp add: example_products_def)
  have e: "product_id (example_products ! 0) = order_product_id (example_orders ! 1)"
    by (simp add: example_products_def example_orders_def example_order_def)
  from unit_price_is_product_price [OF g m] p e
  have "unit_price_at_order (example_orders ! 1) = price (example_products ! 0)" by blast
  with g m p e show ?thesis by blast
qed

text \<open>
  Claim C4.  In every run of \<open>generate_fake_data\<close> that returns, the \<open>location\<close> of
  each order row is the \<open>city\<close> of the customer row with the order's \<open>customer_id\<close>.
  The order's \<open>customer_id\<close> is a key of the dictionary \<open>customer_locations\<close> that
  the function builds from the customer table, so \<open>customer_locations.get\<close> finds
  it and its default, the freshly generated city, is never the result.
\<close>

theorem location_is_customer_city:
  assumes "generate_fake_data cfg ent out = (out', Inr (cs, ps, rows))"
    and "r \<in> set rows"
  shows "(\<exists>c\<in>set cs. customer_id c = order_customer_id r) \<and>
         (\<forall>c\<in>set cs. customer_id c = order_customer_id r \<longrightarrow> location r = city c) \<and>
         (\<exists>customer_locations.
            set_index_to_dict ''customer_id'' customer_id city cs = Inr customer_locations \<and>
            order_customer_id r \<in> set (dict_keys customer_locations) \<and>
            map_of customer_locations (order_customer_id r) = Some (location r))"
proof -
  note ok = generated_rows_ok [OF assms(1)]
  note g = generate_fake_data_Inr [OF assms(1)]
  let ?d = "zip (map customer_id cs) (map city cs)"
  have r: "order_row_ok (map customer_id cs) (zip (map product_id ps) (map price ps)) ?d r"
    using ok(1) assms(2) by (simp add: list_all_iff)
  then have mem: "order_customer_id r \<in> set (map customer_id cs)"
    by (simp add: order_row_ok_def)
  then obtain c where c: "c \<in> set cs" "customer_id c = order_customer_id r" by auto
  have look: "map_of ?d (order_customer_id r) = Some (city c)"
    using map_of_zip_map_distinct [OF ok(2) c(1), of city] by (simp only: c(2))
  from r obtain dflt where "location r = dict_get ?d (order_customer_id r) dflt"
    unfolding order_row_ok_def by blast
  then have loc: "location r = city c" by (simp only: dict_get_def look option.case)
  have 1: "\<exists>c\<in>set cs. customer_id c = order_customer_id r"
    using c by blast
  have 2: "\<forall>c\<in>set cs. customer_id c = order_customer_id r \<longrightarrow> location r = city c"
  proof (intro ballI impI)
    fix c'
    assume c': "c' \<in> set cs" "customer_id c' = order_customer_id r"
    have "map_of ?d (order_customer_id r) = Some (city c')"
      using map_of_zip_map_distinct [OF ok(2) c'(1), of city] by (simp only: c'(2))
    with look have "city c' = city c" by simp
    with loc show "location r = city c'" by simp
  qed
  have 3: "set_index_to_dict ''customer_id'' customer_id city cs = Inr ?d"
    using g(3) by (simp add: set_index_to_dict_def dict_of_zip_distinct [OF ok(2)])
  have 4: "order_customer_id r \<in> set (dict_keys ?d)"
    using mem by (simp add: dict_keys_def)
  have 5: "map_of ?d (order_customer_id r) = Some (location r)"
    using look loc by simp
  from 3 4 5 have "\<exists>customer_locations.
            set_index_to_dict ''customer_id'' customer_id city cs = Inr customer_locations \<and>
            order_customer_id r \<in> set (dict_keys customer_locations) \<and>
            map_of customer_locations (order_customer_id r) = Some (location r)"
    by blast
  with 1 2 show ?thesis by blast
qed

theorem location_is_customer_city_witness:
  "generate_fake_data example_config example_entropy [] =
     (example_stdout, Inr (example_customers, example_products, example_orders)) \<and>
   example_orders ! 1 \<in> set example_orders \<and>
   example_customers ! 1 \<in> set example_customers \<and>
   customer_id (example_customers ! 1) = order_customer_id (example_orders ! 1) \<and>
   location (example_orders ! 1) = city (example_customers ! 1)"
proof -
  note g = generate_example
  have m: "example_orders ! 1 \<in> set example_orders" by (simp add: example_orders_def)
  have c: "example_customers ! 1 \<in> set example_customers" by (simp add: example_customers_def)
  have e: "customer_id (example_customers ! 1) = order_customer_id (example_orders ! 1)"
    by (simp add: example_customers_def example_orders_def example_order_def)
  from location_is_customer_city [OF g m] c e
  have "location (example_orders ! 1) = city (example_customers ! 1)" by blast
  with g m c e show ?thesis by blast
qed

text \<open>
  Claim C5.  \<open>upload_to_gcs\<close> uses the service-account key file exactly when the
  argument \<open>service_account_key_path\<close> is a non-empty string, and Application Default
  Credentials otherwise; the claim adds that the default configuration resolves to
  Application Default Credentials.  The comment above \<open>GCS_SERVICE_ACCOUNT_KEY_PATH\<close>
  says to leave it as \<open>None\<close> for that, but the module assigns the string \<open>"None"\<close>.
  The code at the default configuration: the argument is truthy, the function prints that
  it authenticates with the service account key \<open>None\<close>, tries to load a key file of
  that name, and never constructs a client with Application Default Credentials.
\<close>

theorem default_config_takes_service_account_branch:
  "truthy (GCS_SERVICE_ACCOUNT_KEY_PATH default_config) \<and>
   authenticate cl (GCS_PROJECT_ID default_config) (GCS_SERVICE_ACCOUNT_KEY_PATH default_config) =
     ([''Authenticating with service account key: None''],
      case from_service_account_file_raises cl ''None'' of
        Some e \<Rightarrow> Inl (Exception (''Failed to load service account credentials from None: '' @ str_error e))
      | None \<Rightarrow>
     (case storage_Client_raises cl (Some ''pro-env-test'') (Some (ServiceAccountCredentials ''None'')) of
        Some e \<Rightarrow> Inl (Exception (''Failed to load service account credentials from None: '' @ str_error e))
      | None \<Rightarrow> Inr (StorageClient (Some ''pro-env-test'') (Some (ServiceAccountCredentials ''None'')))))"
  by (simp add: default_config_def authenticate_def truthy_def Let_def split: option.splits)

text \<open>
  Claim C6.  When generation and saving have succeeded and \<open>upload_to_gcs\<close> raises an
  exception \<open>e\<close>, whatever it is and wherever in the upload it arises, \<open>genarator\<close>
  prints the explanatory message and \<open>Error: e\<close> after the output of the upload and
  returns normally.  An exception that \<open>genarator\<close> does propagate was raised by
  \<open>generate_fake_data\<close> or by \<open>save_data_to_csv\<close>, never by the upload.
\<close>

theorem upload_errors_are_caught:
  "(generate_fake_data cfg ent (stdout w) = (out1, Inr dfs) \<and>
    save_data_to_csv cfg dfs (w\<lparr>stdout := out1\<rparr>) = (w2, Inr ()) \<and>
    upload_to_gcs cl (GCS_BUCKET_NAME cfg) (DATA_DIR cfg) (GCS_PROJECT_ID cfg)
      (GCS_SERVICE_ACCOUNT_KEY_PATH cfg) w2 = (w3, Inl e) \<longrightarrow>
    genarator cfg ent cl w =
      (w3\<lparr>stdout := stdout w3 @ [upload_error_message, ''Error: '' @ str_error e]\<rparr>, Inr ())) \<and>
   (genarator cfg ent cl w = (w', Inl e') \<longrightarrow>
    generate_fake_data cfg ent (stdout w) = (stdout w', Inl e') \<or>
    (\<exists>out1 dfs. generate_fake_data cfg ent (stdout w) = (out1, Inr dfs) \<and>
       save_data_to_csv cfg dfs (w\<lparr>stdout := out1\<rparr>) = (w', Inl e')))"
proof (intro conjI impI)
  assume "generate_fake_data cfg ent (stdout w) = (out1, Inr dfs) \<and>
    save_data_to_csv cfg dfs (w\<lparr>stdout := out1\<rparr>) = (w2, Inr ()) \<and>
    upload_to_gcs cl (GCS_BUCKET_NAME cfg) (DATA_DIR cfg) (GCS_PROJECT_ID cfg)
      (GCS_SERVICE_ACCOUNT_KEY_PATH cfg) w2 = (w3, Inl e)"
  then show "genarator cfg ent cl w =
      (w3\<lparr>stdout := stdout w3 @ [upload_error_message, ''Error: '' @ str_error e]\<rparr>, Inr ())"
    by (simp add: genarator_def)
next
  assume "genarator cfg ent cl w = (w', Inl e')"
  then show "generate_fake_data cfg ent (stdout w) = (stdout w', Inl e') \<or>
    (\<exists>out1 dfs. generate_fake_data cfg ent (stdout w) = (out1, Inr dfs) \<and>
       save_data_to_csv cfg dfs (w\<lparr>stdout := out1\<rparr>) = (w', Inl e'))"
    by (auto simp: genarator_def split: prod.splits sum.splits)
qed

theorem upload_errors_are_caught_witness:
  "generate_fake_data example_config example_entropy (stdout example_world) =
     (example_stdout, Inr (example_customers, example_products, example_orders)) \<and>
   save_data_to_csv example_config (example_customers, example_products, example_orders)
     (example_world\<lparr>stdout := example_stdout\<rparr>) = (example_saved, Inr ()) \<and>
   upload_to_gcs example_cloud (GCS_BUCKET_NAME example_config) (DATA_DIR example_config)
     (GCS_PROJECT_ID example_config) (GCS_SERVICE_ACCOUNT_KEY_PATH example_config) example_saved =
     (example_uploaded,
      Inl (Exception (''Failed to load service account credentials from None: '' @
                      str_error (FileNotFoundError ''None'')))) \<and>
   genarator example_config example_entropy example_cloud example_world =
     (example_uploaded\<lparr>stdout := stdout example_uploaded @
        [upload_error_message,
         ''Error: Failed to load service account credentials from None: '' @
           str_error (FileNotFoundError ''None'')]\<rparr>,
      Inr ()) \<and>
   genarator (example_config\<lparr>NUM_CUSTOMERS := 0\<rparr>) example_entropy example_cloud example_world =
     (example_world\<lparr>stdout := [''Generating fake e-commerce data...'', ''Generated 0 customers.'',
        ''Generated 2 products.'']\<rparr>, Inl (KeyError ''customer_id'')) \<and>
   generate_fake_data (example_config\<lparr>NUM_CUSTOMERS := 0\<rparr>) example_entropy (stdout example_world) =
     ([''Generating fake e-commerce data...'', ''Generated 0 customers.'', ''Generated 2 products.''],
      Inl (KeyError ''customer_id''))"
proof -
  have w: "stdout example_world = []" by (simp add: example_world_def)
  have g: "generate_fake_data example_config example_entropy (stdout example_world) =
     (example_stdout, Inr (example_customers, example_products, example_orders))"
    unfolding w by (rule generate_example)
  note s = save_example
  note u = upload_example
  from upload_errors_are_caught
    [of example_config example_entropy example_world example_stdout
        "(example_customers, example_products, example_orders)" example_saved example_cloud
        example_uploaded
        "Exception (''Failed to load service account credentials from None: '' @
           str_error (FileNotFoundError ''None''))"]
    g s u
  have "genarator example_config example_entropy example_cloud example_world =
     (example_uploaded\<lparr>stdout := stdout example_uploaded @
        [upload_error_message,
         ''Error: Failed to load service account credentials from None: '' @
           str_error (FileNotFoundError ''None'')]\<rparr>,
      Inr ())"
    by simp
  with g s u genarator_no_customers_example generate_no_customers_example show ?thesis
    by blast
qed

text \<open>
  Claim C7.  In every run of \<open>generate_fake_data\<close> that returns, the \<open>price\<close> of each
  product row lies in \<open>[5.0, 500.0]\<close> and is a float with two decimals: it is the
  binary64 number nearest to \<open>k / 100\<close> for an integer \<open>k\<close> between \<open>500\<close> and
  \<open>50000\<close>, and rounding it to two decimals again returns it unchanged
  (\<open>round(price, 2) == price\<close>).  A binary float such as \<open>66.88\<close> is not equal to
  the decimal \<open>66.88\<close>; "at most two fractional digits" is read as these two
  properties of the float.
\<close>

theorem price_range_and_precision:
  assumes "generate_fake_data cfg ent out = (out', Inr (cs, ps, rows))"
    and "p \<in> set ps"
  shows "5 \<le> price p \<and> price p \<le> 500 \<and>
         (\<exists>k::int. 500 \<le> k \<and> k \<le> 50000 \<and> price p = round_binary64 (of_int k / 100)) \<and>
         py_round (price p) 2 = price p"
proof -
  have "products_loop ent [0..<NUM_PRODUCTS cfg] [] = Inr ps"
    using assms(1) by (rule generate_fake_data_Inr)
  from products_loop_prices [OF this] have "price p \<in> set (map (\<lambda>i. py_round (random_uniform (draw_price ent i) 5 500) 2) [0..<NUM_PRODUCTS cfg])"
    using assms(2) by (metis append_Nil image_eqI list.map(1) set_map)
  then obtain i where i: "price p = py_round (random_uniform (draw_price ent i) 5 500) 2"
    by auto
  define x where "x = random_uniform (draw_price ent i) 5 500"
  define k where "k = round_half_even (x * 10 ^ 2)"
  have x: "5 \<le> x" "x \<le> 500" using random_uniform_range [of "draw_price ent i"] by (simp_all add: x_def)
  note r = py_round_2_range [OF x]
  have k: "500 \<le> k" "k \<le> 50000" using r(1,2) by (simp_all add: k_def)
  have pk: "price p = round_binary64 (of_int k / 100)"
    by (simp add: i py_round_def k_def x_def)
  have "py_round (price p) 2 = price p"
    unfolding pk using k by (rule py_round_2_of_cents)
  moreover have "5 \<le> price p" "price p \<le> 500" using r(3,4) by (simp_all add: i x_def)
  ultimately show ?thesis using k pk by blast
qed

theorem price_range_and_precision_witness:
  "generate_fake_data example_config example_entropy [] =
     (example_stdout, Inr (example_customers, example_products, example_orders)) \<and>
   example_products ! 0 \<in> set example_products \<and>
   5 \<le> price (example_products ! 0) \<and> price (example_products ! 0) \<le> 500 \<and>
   (\<exists>k::int. 500 \<le> k \<and> k \<le> 50000 \<and>
      price (example_products ! 0) = round_binary64 (of_int k / 100)) \<and>
   py_round (price (example_products ! 0)) 2 = price (example_products ! 0)"
proof -
  note g = generate_example
  have p: "example_products ! 0 \<in> set example_products" by (simp add: example_products_def)
  from price_range_and_precision [OF g p] g p show ?thesis by blast
qed

text \<open>
  Claim C8.  For every count \<open>n\<close>, when the customer loop over \<open>range(n)\<close> ends
  without an exception it has produced \<open>n\<close> customers, the \<open>i\<close>-th of them
  (\<open>i\<close> from \<open>1\<close> to \<open>n\<close>) has the \<open>customer_id\<close> \<open>CUST\<close> followed by
  \<open>str(i).zfill(5)\<close>, and the \<open>n\<close> identifiers are pairwise distinct.
\<close>

theorem customer_ids_sequential_distinct:
  assumes "customers_loop ent [0..<n] [] = Inr cs"
  shows "length cs = n \<and>
         (\<forall>i. 1 \<le> i \<and> i \<le> n \<longrightarrow> customer_id (cs ! (i - 1)) = ''CUST'' @ zfill 5 (str_nat i)) \<and>
         distinct (map customer_id cs)"
proof -
  have ids: "map customer_id cs = map (\<lambda>i. ''CUST'' @ zfill 5 (str_nat (i + 1))) [0..<n]"
    using customers_loop_ids [OF assms] by simp
  from arg_cong [OF this, of length] have len: "length cs = n" by simp
  have "customer_id (cs ! (i - 1)) = ''CUST'' @ zfill 5 (str_nat i)" if "1 \<le> i" "i \<le> n" for i
  proof -
    from that have lt: "i - 1 < n" by simp
    then have "customer_id (cs ! (i - 1)) = map customer_id cs ! (i - 1)"
      using len by simp
    also have "\<dots> = ''CUST'' @ zfill 5 (str_nat ((i - 1) + 1))"
      unfolding ids using lt by simp
    finally show ?thesis using that by simp
  qed
  with len customers_loop_distinct [OF assms] show ?thesis by blast
qed

theorem customer_ids_sequential_distinct_witness:
  "customers_loop example_entropy [0..<2] [] = Inr example_customers \<and>
   length example_customers = 2 \<and>
   (1::nat) \<le> 2 \<and> (2::nat) \<le> 2 \<and>
   customer_id (example_customers ! (2 - 1)) = ''CUST'' @ zfill 5 (str_nat 2) \<and>
   distinct (map customer_id example_customers)"
proof -
  note c = customers_example
  have "(1::nat) \<le> 2 \<and> (2::nat) \<le> 2" by simp
  with customer_ids_sequential_distinct [OF c] c show ?thesis by blast
qed




text \<open>
  Claim C10.  \<open>upload_to_gcs\<close> chooses its branch by the truth value of
  \<open>service_account_key_path\<close>.  The argument is truthy exactly when it is neither
  \<open>None\<close> nor the empty string.  Every non-empty string \<open>s\<close> is truthy: the function
  prints that it authenticates with the service account key \<open>s\<close>, and a client, if one
  is constructed, carries the credentials of the key file \<open>s\<close>.  For \<open>None\<close> and for
  the empty string the function prints the line of Application Default Credentials and
  constructs the client without credentials; no key file is loaded.  In the output of
  \<open>upload_to_gcs\<close> the line after the announcement of the upload is the line of the
  branch that the truth value selects, and neither authentication line is printed again.
  The default of the module is the string \<open>"None"\<close>.  So whenever a run of
  \<open>genarator\<close> with the default configuration reaches the upload, its output continues
  with the line of the service-account branch for the key \<open>None\<close>, and the line of the
  Application Default Credentials branch is not printed.
\<close>

theorem string_None_selects_service_account_branch:
  "(truthy v \<longleftrightarrow> v \<noteq> None \<and> v \<noteq> Some []) \<and>
   (s \<noteq> [] \<longrightarrow>
      truthy (Some s) \<and>
      fst (authenticate cl project (Some s)) = [''Authenticating with service account key: '' @ s] \<and>
      (snd (authenticate cl project (Some s)) = Inr client \<longrightarrow>
         client = StorageClient project (Some (ServiceAccountCredentials s)))) \<and>
   (\<not> truthy v \<longrightarrow>
      authenticate cl project v =
        ([''Authenticating using Application Default Credentials (e.g., gcloud auth application-default login)''],
         case storage_Client_raises cl project None of
           Some e \<Rightarrow> Inl e
         | None \<Rightarrow> Inr (StorageClient project None))) \<and>
   (\<exists>rest. stdout (fst (upload_to_gcs cl bucket_name source_directory project v w0)) =
        stdout w0 @
        [''Attempting to upload files from '' @ quoted source_directory @
           '' to GCS bucket: '' @ quoted bucket_name,
         if truthy v then ''Authenticating with service account key: '' @ the v
         else ''Authenticating using Application Default Credentials (e.g., gcloud auth application-default login)''] @
        rest \<and>
        ''Authenticating using Application Default Credentials (e.g., gcloud auth application-default login)''
          \<notin> set rest \<and>
        (\<forall>key. ''Authenticating with service account key: '' @ key \<notin> set rest)) \<and>
   GCS_SERVICE_ACCOUNT_KEY_PATH default_config = Some ''None'' \<and>
   (generate_fake_data default_config ent (stdout w) = (out1, Inr dfs) \<and>
    save_data_to_csv default_config dfs (w\<lparr>stdout := out1\<rparr>) = (w2, Inr ()) \<longrightarrow>
    (\<exists>rest. stdout (fst (genarator default_config ent cl w)) =
        stdout w2 @
        [''Attempting to upload files from '' @ quoted (DATA_DIR default_config) @
           '' to GCS bucket: '' @ quoted (GCS_BUCKET_NAME default_config),
         ''Authenticating with service account key: None''] @ rest \<and>
        ''Authenticating using Application Default Credentials (e.g., gcloud auth application-default login)''
          \<notin> set rest))"
proof (intro conjI impI)
  show "truthy v \<longleftrightarrow> v \<noteq> None \<and> v \<noteq> Some []"
    by (simp add: truthy_def split: option.splits)
next
  assume s: "s \<noteq> []"
  then show "truthy (Some s)" by (simp add: truthy_def)
  from s show "fst (authenticate cl project (Some s)) = [''Authenticating with service account key: '' @ s]"
    by (rule authenticate_truthy)
  assume "snd (authenticate cl project (Some s)) = Inr client"
  with s show "client = StorageClient project (Some (ServiceAccountCredentials s))"
    by (rule authenticate_truthy)
next
  assume "\<not> truthy v"
  then show "authenticate cl project v =
        ([''Authenticating using Application Default Credentials (e.g., gcloud auth application-default login)''],
         case storage_Client_raises cl project None of
           Some e \<Rightarrow> Inl e
         | None \<Rightarrow> Inr (StorageClient project None))"
    by (simp add: authenticate_def)
next
  let ?adc = "''Authenticating using Application Default Credentials (e.g., gcloud auth application-default login)''"
  let ?attempt = "''Attempting to upload files from '' @ quoted source_directory @
           '' to GCS bucket: '' @ quoted bucket_name"
  have a: "fst (authenticate cl project v) =
      [if truthy v then ''Authenticating with service account key: '' @ the v else ?adc]"
    by (simp add: authenticate_def Let_def)
  from upload_to_gcs_stdout [of cl bucket_name source_directory project v w0] obtain rest where
    r: "stdout (fst (upload_to_gcs cl bucket_name source_directory project v w0)) =
          stdout w0 @ [?attempt] @ fst (authenticate cl project v) @ rest"
       "\<forall>l\<in>set rest. take 9 l = ''Uploaded '' \<or> l = ''All files uploaded to GCS.''"
    by blast
  have "?adc \<notin> set rest" using r(2) by fastforce
  moreover have "\<forall>key. ''Authenticating with service account key: '' @ key \<notin> set rest"
    using r(2) by fastforce
  moreover have "stdout (fst (upload_to_gcs cl bucket_name source_directory project v w0)) =
        stdout w0 @
        [?attempt, if truthy v then ''Authenticating with service account key: '' @ the v else ?adc] @ rest"
    using r(1) unfolding a by simp
  ultimately show "\<exists>rest. stdout (fst (upload_to_gcs cl bucket_name source_directory project v w0)) =
        stdout w0 @
        [?attempt, if truthy v then ''Authenticating with service account key: '' @ the v else ?adc] @ rest \<and>
        ?adc \<notin> set rest \<and>
        (\<forall>key. ''Authenticating with service account key: '' @ key \<notin> set rest)"
    by blast
next
  show k: "GCS_SERVICE_ACCOUNT_KEY_PATH default_config = Some ''None''"
    by (simp add: default_config_def)
  let ?adc = "''Authenticating using Application Default Credentials (e.g., gcloud auth application-default login)''"
  let ?head = "[''Attempting to upload files from '' @ quoted (DATA_DIR default_config) @
           '' to GCS bucket: '' @ quoted (GCS_BUCKET_NAME default_config),
         ''Authenticating with service account key: None'']"
  assume a: "generate_fake_data default_config ent (stdout w) = (out1, Inr dfs) \<and>
    save_data_to_csv default_config dfs (w\<lparr>stdout := out1\<rparr>) = (w2, Inr ())"
  from genarator_stdout [of default_config ent w out1 dfs w2 cl] a obtain tail where
    t: "stdout (fst (genarator default_config ent cl w)) =
           stdout (fst (upload_to_gcs cl (GCS_BUCKET_NAME default_config) (DATA_DIR default_config)
             (GCS_PROJECT_ID default_config) (Some ''None'') w2)) @ tail"
       "tail = [] \<or> (\<exists>e. tail = [upload_error_message, ''Error: '' @ str_error e])"
    unfolding k by blast
  from upload_to_gcs_service_account_stdout [of "''None''" cl "GCS_BUCKET_NAME default_config"
      "DATA_DIR default_config" "GCS_PROJECT_ID default_config" w2]
  obtain rest where
    r: "stdout (fst (upload_to_gcs cl (GCS_BUCKET_NAME default_config) (DATA_DIR default_config)
             (GCS_PROJECT_ID default_config) (Some ''None'') w2)) = stdout w2 @ ?head @ rest"
       "\<forall>l\<in>set rest. take 9 l = ''Uploaded '' \<or> l = ''All files uploaded to GCS.''"
    by auto
  have "?adc \<notin> set rest" using r(2) by fastforce
  moreover have "?adc \<notin> set tail" using t(2) by (auto simp: upload_error_message_def)
  ultimately have "?adc \<notin> set (rest @ tail)" by simp
  moreover have "stdout (fst (genarator default_config ent cl w)) = stdout w2 @ ?head @ (rest @ tail)"
    using t(1) r(1) by simp
  ultimately show "\<exists>rest. stdout (fst (genarator default_config ent cl w)) = stdout w2 @ ?head @ rest \<and>
        ?adc \<notin> set rest"
    by blast
qed

theorem string_None_selects_service_account_branch_witness:
  "''key.json'' \<noteq> [] \<and>
   truthy (Some ''key.json'') \<and>
   fst (authenticate (example_cloud\<lparr>from_service_account_file_raises := (\<lambda>path. None)\<rparr>)
          (Some ''pro-env-test'') (Some ''key.json'')) =
     [''Authenticating with service account key: key.json''] \<and>
   snd (authenticate (example_cloud\<lparr>from_service_account_file_raises := (\<lambda>path. None)\<rparr>)
          (Some ''pro-env-test'') (Some ''key.json'')) =
     Inr (StorageClient (Some ''pro-env-test'') (Some (ServiceAccountCredentials ''key.json''))) \<and>
   \<not> truthy None \<and>
   \<not> truthy (Some []) \<and>
   authenticate example_cloud (Some ''pro-env-test'') None =
     ([''Authenticating using Application Default Credentials (e.g., gcloud auth application-default login)''],
      Inr (StorageClient (Some ''pro-env-test'') None)) \<and>
   authenticate example_cloud (Some ''pro-env-test'') (Some []) =
     ([''Authenticating using Application Default Credentials (e.g., gcloud auth application-default login)''],
      Inr (StorageClient (Some ''pro-env-test'') None)) \<and>
   (\<exists>rest. stdout (fst (upload_to_gcs example_cloud ''repo-prod-raw-stg'' ''fake_ecommerce_data''
                          (Some ''pro-env-test'') None example_saved)) =
        stdout example_saved @
        [''Attempting to upload files from '' @ quoted ''fake_ecommerce_data'' @
           '' to GCS bucket: '' @ quoted ''repo-prod-raw-stg'',
         ''Authenticating using Application Default Credentials (e.g., gcloud auth application-default login)''] @
        rest \<and>
        ''Authenticating using Application Default Credentials (e.g., gcloud auth application-default login)''
          \<notin> set rest \<and>
        ''Authenticating with service account key: None'' \<notin> set rest) \<and>
   (\<exists>out1 dfs w2 rest.
      generate_fake_data default_config example_entropy (stdout example_world) = (out1, Inr dfs) \<and>
      save_data_to_csv default_config dfs (example_world\<lparr>stdout := out1\<rparr>) = (w2, Inr ()) \<and>
      stdout (fst (genarator default_config example_entropy example_cloud example_world)) =
        stdout w2 @
        [''Attempting to upload files from '' @ quoted (DATA_DIR default_config) @
           '' to GCS bucket: '' @ quoted (GCS_BUCKET_NAME default_config),
         ''Authenticating with service account key: None''] @ rest \<and>
      ''Authenticating using Application Default Credentials (e.g., gcloud auth application-default login)''
        \<notin> set rest)"
proof -
  let ?cl = "example_cloud\<lparr>from_service_account_file_raises := (\<lambda>path. None)\<rparr>"
  let ?client = "StorageClient (Some ''pro-env-test'') (Some (ServiceAccountCredentials ''key.json''))"
  let ?adc = "''Authenticating using Application Default Credentials (e.g., gcloud auth application-default login)''"
  have ne: "''key.json'' \<noteq> []" by simp
  have sn: "snd (authenticate ?cl (Some ''pro-env-test'') (Some ''key.json'')) = Inr ?client"
    by (simp add: authenticate_def truthy_def example_cloud_def Let_def)
  have "\<exists>out' dfs. generate_fake_data default_config example_entropy (stdout example_world) = (out', Inr dfs)"
    by (rule generate_fake_data_returns) (simp_all add: default_config_def example_entropy_def)
  then obtain out1 dfs where
    g: "generate_fake_data default_config example_entropy (stdout example_world) = (out1, Inr dfs)"
    by blast
  obtain w2 where s: "save_data_to_csv default_config dfs (example_world\<lparr>stdout := out1\<rparr>) = (w2, Inr ())"
    using save_into_example_world by blast
  note t = string_None_selects_service_account_branch
    [where s = "''key.json''" and cl = ?cl and project = "Some ''pro-env-test''"]
  note t' = string_None_selects_service_account_branch
    [where s = "''key.json''" and cl = example_cloud and ent = example_entropy
       and w = example_world and ?out1.0 = out1 and dfs = dfs and ?w2.0 = w2]
  note n = string_None_selects_service_account_branch
    [where v = None and cl = example_cloud and project = "Some ''pro-env-test''"
       and bucket_name = "''repo-prod-raw-stg''" and source_directory = "''fake_ecommerce_data''"
       and ?w0.0 = example_saved]
  note e = string_None_selects_service_account_branch
    [where v = "Some []" and cl = example_cloud and project = "Some ''pro-env-test''"]
  from t ne have 1: "truthy (Some ''key.json'')"
    and 2: "fst (authenticate ?cl (Some ''pro-env-test'') (Some ''key.json'')) =
              [''Authenticating with service account key: key.json'']"
    by simp_all
  from t' g s obtain rest where
    3: "stdout (fst (genarator default_config example_entropy example_cloud example_world)) =
        stdout w2 @
        [''Attempting to upload files from '' @ quoted (DATA_DIR default_config) @
           '' to GCS bucket: '' @ quoted (GCS_BUCKET_NAME default_config),
         ''Authenticating with service account key: None''] @ rest"
    and 4: "?adc \<notin> set rest"
    by blast
  from n have 5: "\<not> truthy None" by simp
  from e have 6: "\<not> truthy (Some [])" by simp
  from n 5 have 7: "authenticate example_cloud (Some ''pro-env-test'') None =
      ([?adc], Inr (StorageClient (Some ''pro-env-test'') None))"
    by (simp add: example_cloud_def)
  from e 6 have 8: "authenticate example_cloud (Some ''pro-env-test'') (Some []) =
      ([?adc], Inr (StorageClient (Some ''pro-env-test'') None))"
    by (simp add: example_cloud_def)
  note up = n [THEN conjunct2, THEN conjunct2, THEN conjunct2, THEN conjunct1]
  from up 5 obtain rest' where
    9: "stdout (fst (upload_to_gcs example_cloud ''repo-prod-raw-stg'' ''fake_ecommerce_data''
                          (Some ''pro-env-test'') None example_saved)) =
        stdout example_saved @
        [''Attempting to upload files from '' @ quoted ''fake_ecommerce_data'' @
           '' to GCS bucket: '' @ quoted ''repo-prod-raw-stg'', ?adc] @ rest'"
    and 10: "?adc \<notin> set rest'"
    and k: "\<forall>key. ''Authenticating with service account key: '' @ key \<notin> set rest'"
    by auto
  from k [rule_format, of "''None''"]
  have 11: "''Authenticating with service account key: None'' \<notin> set rest'"
    by simp
  from 9 10 11 have 12: "\<exists>rest. stdout (fst (upload_to_gcs example_cloud ''repo-prod-raw-stg'' ''fake_ecommerce_data''
                          (Some ''pro-env-test'') None example_saved)) =
        stdout example_saved @
        [''Attempting to upload files from '' @ quoted ''fake_ecommerce_data'' @
           '' to GCS bucket: '' @ quoted ''repo-prod-raw-stg'', ?adc] @ rest \<and>
        ?adc \<notin> set rest \<and> ''Authenticating with service account key: None'' \<notin> set rest"
    by blast
  from g s 3 4 have 13: "\<exists>out1 dfs w2 rest.
      generate_fake_data default_config example_entropy (stdout example_world) = (out1, Inr dfs) \<and>
      save_data_to_csv default_config dfs (example_world\<lparr>stdout := out1\<rparr>) = (w2, Inr ()) \<and>
      stdout (fst (genarator default_config example_entropy example_cloud example_world)) =
        stdout w2 @
        [''Attempting to upload files from '' @ quoted (DATA_DIR default_config) @
           '' to GCS bucket: '' @ quoted (GCS_BUCKET_NAME default_config),
         ''Authenticating with service account key: None''] @ rest \<and>
      ?adc \<notin> set rest"
    by blast
  from ne 1 2 sn 5 6 7 8 12 13 show ?thesis by simp
qed

end
